theory Spec2Isabelle
  imports Main "HOL-Library.Word" "HOL-Library.Multiset"
begin

unbundle bit_operations_syntax

section \<open>Values of the JavaScript runtime\<close>

text \<open>
  A JavaScript string is a sequence of UTF-16 code units. Binary data (the contents of a
  CryptoJS \<open>WordArray\<close> with \<open>sigBytes\<close> significant bytes) is a list of bytes; where
  CryptoJS reads the 32-bit words of a \<open>WordArray\<close> directly (the key and the IV) the
  model keeps the list of words.
\<close>

type_synonym byte = "8 word"
type_synonym word32 = "32 word"
type_synonym jsstring = "16 word list"

text \<open>An ASCII literal of the source as a JavaScript string.\<close>

definition js :: "string \<Rightarrow> jsstring" where
  "js s = map (\<lambda>c. word_of_nat (of_char c)) s"

text \<open>Thrown values: \<open>new Error(message)\<close>, the \<open>URIError\<close> of \<open>encodeURIComponent\<close>,
  the rejection of a call into a native module (secure store, file system), the
  \<open>TypeError\<close> of a property read on \<open>null\<close> or of a call of something that is not a
  function, and the \<open>SyntaxError\<close> of \<open>JSON.parse\<close>.\<close>

datatype error = Error string | URIError | NativeError | TypeError | SyntaxError

text \<open>Reading an array element: an index past the end yields \<open>undefined\<close>, which every
  bitwise operator of JavaScript treats as 0.\<close>

definition byte_at :: "byte list \<Rightarrow> nat \<Rightarrow> byte" where
  "byte_at bs i = (if i < length bs then bs ! i else 0)"

definition word_at :: "word32 list \<Rightarrow> nat \<Rightarrow> word32" where
  "word_at ws i = (if i < length ws then ws ! i else 0)"

text \<open>The four bytes of a word, most significant first, and back.\<close>

definition word_bytes :: "word32 \<Rightarrow> byte list" where
  "word_bytes w = [ucast (drop_bit 24 w), ucast (drop_bit 16 w), ucast (drop_bit 8 w), ucast w]"

definition bytes_word :: "byte \<Rightarrow> byte \<Rightarrow> byte \<Rightarrow> byte \<Rightarrow> word32" where
  "bytes_word a b c d =
     push_bit 24 (ucast a) OR push_bit 16 (ucast b) OR push_bit 8 (ucast c) OR ucast d"

section \<open>The AES block cipher of CryptoJS\<close>

text \<open>
  \<open>CryptoJS.AES\<close> is the Rijndael cipher of FIPS-197 on blocks of four 32-bit words, with
  \<open>keySize + 6\<close> rounds for a key of \<open>keySize\<close> words. The state is kept as four columns
  of four bytes; column \<open>j\<close> is word \<open>j\<close> of the block.
\<close>

type_synonym col = "byte \<times> byte \<times> byte \<times> byte"
type_synonym state = "col \<times> col \<times> col \<times> col"

definition SBOX :: "byte list" where
  "SBOX = [
    0x63, 0x7c, 0x77, 0x7b, 0xf2, 0x6b, 0x6f, 0xc5, 0x30, 0x01, 0x67, 0x2b, 0xfe, 0xd7, 0xab, 0x76,
    0xca, 0x82, 0xc9, 0x7d, 0xfa, 0x59, 0x47, 0xf0, 0xad, 0xd4, 0xa2, 0xaf, 0x9c, 0xa4, 0x72, 0xc0,
    0xb7, 0xfd, 0x93, 0x26, 0x36, 0x3f, 0xf7, 0xcc, 0x34, 0xa5, 0xe5, 0xf1, 0x71, 0xd8, 0x31, 0x15,
    0x04, 0xc7, 0x23, 0xc3, 0x18, 0x96, 0x05, 0x9a, 0x07, 0x12, 0x80, 0xe2, 0xeb, 0x27, 0xb2, 0x75,
    0x09, 0x83, 0x2c, 0x1a, 0x1b, 0x6e, 0x5a, 0xa0, 0x52, 0x3b, 0xd6, 0xb3, 0x29, 0xe3, 0x2f, 0x84,
    0x53, 0xd1, 0x00, 0xed, 0x20, 0xfc, 0xb1, 0x5b, 0x6a, 0xcb, 0xbe, 0x39, 0x4a, 0x4c, 0x58, 0xcf,
    0xd0, 0xef, 0xaa, 0xfb, 0x43, 0x4d, 0x33, 0x85, 0x45, 0xf9, 0x02, 0x7f, 0x50, 0x3c, 0x9f, 0xa8,
    0x51, 0xa3, 0x40, 0x8f, 0x92, 0x9d, 0x38, 0xf5, 0xbc, 0xb6, 0xda, 0x21, 0x10, 0xff, 0xf3, 0xd2,
    0xcd, 0x0c, 0x13, 0xec, 0x5f, 0x97, 0x44, 0x17, 0xc4, 0xa7, 0x7e, 0x3d, 0x64, 0x5d, 0x19, 0x73,
    0x60, 0x81, 0x4f, 0xdc, 0x22, 0x2a, 0x90, 0x88, 0x46, 0xee, 0xb8, 0x14, 0xde, 0x5e, 0x0b, 0xdb,
    0xe0, 0x32, 0x3a, 0x0a, 0x49, 0x06, 0x24, 0x5c, 0xc2, 0xd3, 0xac, 0x62, 0x91, 0x95, 0xe4, 0x79,
    0xe7, 0xc8, 0x37, 0x6d, 0x8d, 0xd5, 0x4e, 0xa9, 0x6c, 0x56, 0xf4, 0xea, 0x65, 0x7a, 0xae, 0x08,
    0xba, 0x78, 0x25, 0x2e, 0x1c, 0xa6, 0xb4, 0xc6, 0xe8, 0xdd, 0x74, 0x1f, 0x4b, 0xbd, 0x8b, 0x8a,
    0x70, 0x3e, 0xb5, 0x66, 0x48, 0x03, 0xf6, 0x0e, 0x61, 0x35, 0x57, 0xb9, 0x86, 0xc1, 0x1d, 0x9e,
    0xe1, 0xf8, 0x98, 0x11, 0x69, 0xd9, 0x8e, 0x94, 0x9b, 0x1e, 0x87, 0xe9, 0xce, 0x55, 0x28, 0xdf,
    0x8c, 0xa1, 0x89, 0x0d, 0xbf, 0xe6, 0x42, 0x68, 0x41, 0x99, 0x2d, 0x0f, 0xb0, 0x54, 0xbb, 0x16]"

definition INV_SBOX :: "byte list" where
  "INV_SBOX = [
    0x52, 0x09, 0x6a, 0xd5, 0x30, 0x36, 0xa5, 0x38, 0xbf, 0x40, 0xa3, 0x9e, 0x81, 0xf3, 0xd7, 0xfb,
    0x7c, 0xe3, 0x39, 0x82, 0x9b, 0x2f, 0xff, 0x87, 0x34, 0x8e, 0x43, 0x44, 0xc4, 0xde, 0xe9, 0xcb,
    0x54, 0x7b, 0x94, 0x32, 0xa6, 0xc2, 0x23, 0x3d, 0xee, 0x4c, 0x95, 0x0b, 0x42, 0xfa, 0xc3, 0x4e,
    0x08, 0x2e, 0xa1, 0x66, 0x28, 0xd9, 0x24, 0xb2, 0x76, 0x5b, 0xa2, 0x49, 0x6d, 0x8b, 0xd1, 0x25,
    0x72, 0xf8, 0xf6, 0x64, 0x86, 0x68, 0x98, 0x16, 0xd4, 0xa4, 0x5c, 0xcc, 0x5d, 0x65, 0xb6, 0x92,
    0x6c, 0x70, 0x48, 0x50, 0xfd, 0xed, 0xb9, 0xda, 0x5e, 0x15, 0x46, 0x57, 0xa7, 0x8d, 0x9d, 0x84,
    0x90, 0xd8, 0xab, 0x00, 0x8c, 0xbc, 0xd3, 0x0a, 0xf7, 0xe4, 0x58, 0x05, 0xb8, 0xb3, 0x45, 0x06,
    0xd0, 0x2c, 0x1e, 0x8f, 0xca, 0x3f, 0x0f, 0x02, 0xc1, 0xaf, 0xbd, 0x03, 0x01, 0x13, 0x8a, 0x6b,
    0x3a, 0x91, 0x11, 0x41, 0x4f, 0x67, 0xdc, 0xea, 0x97, 0xf2, 0xcf, 0xce, 0xf0, 0xb4, 0xe6, 0x73,
    0x96, 0xac, 0x74, 0x22, 0xe7, 0xad, 0x35, 0x85, 0xe2, 0xf9, 0x37, 0xe8, 0x1c, 0x75, 0xdf, 0x6e,
    0x47, 0xf1, 0x1a, 0x71, 0x1d, 0x29, 0xc5, 0x89, 0x6f, 0xb7, 0x62, 0x0e, 0xaa, 0x18, 0xbe, 0x1b,
    0xfc, 0x56, 0x3e, 0x4b, 0xc6, 0xd2, 0x79, 0x20, 0x9a, 0xdb, 0xc0, 0xfe, 0x78, 0xcd, 0x5a, 0xf4,
    0x1f, 0xdd, 0xa8, 0x33, 0x88, 0x07, 0xc7, 0x31, 0xb1, 0x12, 0x10, 0x59, 0x27, 0x80, 0xec, 0x5f,
    0x60, 0x51, 0x7f, 0xa9, 0x19, 0xb5, 0x4a, 0x0d, 0x2d, 0xe5, 0x7a, 0x9f, 0x93, 0xc9, 0x9c, 0xef,
    0xa0, 0xe0, 0x3b, 0x4d, 0xae, 0x2a, 0xf5, 0xb0, 0xc8, 0xeb, 0xbb, 0x3c, 0x83, 0x53, 0x99, 0x61,
    0x17, 0x2b, 0x04, 0x7e, 0xba, 0x77, 0xd6, 0x26, 0xe1, 0x69, 0x14, 0x63, 0x55, 0x21, 0x0c, 0x7d]"

definition sbox :: "byte \<Rightarrow> byte" where
  "sbox b = SBOX ! unat b"

definition inv_sbox :: "byte \<Rightarrow> byte" where
  "inv_sbox b = INV_SBOX ! unat b"

definition RCON :: "word32 list" where
  "RCON = [0x00, 0x01, 0x02, 0x04, 0x08, 0x10, 0x20, 0x40, 0x80, 0x1b, 0x36]"

fun map_col :: "(byte \<Rightarrow> byte) \<Rightarrow> col \<Rightarrow> col" where
  "map_col f (a, b, c, d) = (f a, f b, f c, f d)"

fun map_state :: "(col \<Rightarrow> col) \<Rightarrow> state \<Rightarrow> state" where
  "map_state g (c0, c1, c2, c3) = (g c0, g c1, g c2, g c3)"

fun xor_col :: "col \<Rightarrow> col \<Rightarrow> col" where
  "xor_col (a, b, c, d) (a', b', c', d') = (a XOR a', b XOR b', c XOR c', d XOR d')"

fun xor_state :: "state \<Rightarrow> state \<Rightarrow> state" where
  "xor_state (c0, c1, c2, c3) (k0, k1, k2, k3) =
     (xor_col c0 k0, xor_col c1 k1, xor_col c2 k2, xor_col c3 k3)"

definition sub_bytes :: "state \<Rightarrow> state" where
  "sub_bytes = map_state (map_col sbox)"

definition inv_sub_bytes :: "state \<Rightarrow> state" where
  "inv_sub_bytes = map_state (map_col inv_sbox)"

fun shift_rows :: "state \<Rightarrow> state" where
  "shift_rows ((a0, a1, a2, a3), (b0, b1, b2, b3), (c0, c1, c2, c3), (d0, d1, d2, d3)) =
     ((a0, b1, c2, d3), (b0, c1, d2, a3), (c0, d1, a2, b3), (d0, a1, b2, c3))"

fun inv_shift_rows :: "state \<Rightarrow> state" where
  "inv_shift_rows ((a0, a1, a2, a3), (b0, b1, b2, b3), (c0, c1, c2, c3), (d0, d1, d2, d3)) =
     ((a0, d1, c2, b3), (b0, a1, d2, c3), (c0, b1, a2, d3), (d0, c1, b2, a3))"

text \<open>Multiplication by \<open>x\<close> in GF(2^8) modulo \<open>x^8 + x^4 + x^3 + x + 1\<close>, and by the
  constants of MixColumns and of its inverse.\<close>

definition xtime :: "byte \<Rightarrow> byte" where
  "xtime a = (if bit a 7 then push_bit 1 a XOR 0x1b else push_bit 1 a)"

definition mul3 :: "byte \<Rightarrow> byte" where
  "mul3 a = xtime a XOR a"

definition mul9 :: "byte \<Rightarrow> byte" where
  "mul9 a = xtime (xtime (xtime a)) XOR a"

definition mul11 :: "byte \<Rightarrow> byte" where
  "mul11 a = xtime (xtime (xtime a)) XOR xtime a XOR a"

definition mul13 :: "byte \<Rightarrow> byte" where
  "mul13 a = xtime (xtime (xtime a)) XOR xtime (xtime a) XOR a"

definition mul14 :: "byte \<Rightarrow> byte" where
  "mul14 a = xtime (xtime (xtime a)) XOR xtime (xtime a) XOR xtime a"

fun mix_column :: "col \<Rightarrow> col" where
  "mix_column (a0, a1, a2, a3) =
     (xtime a0 XOR mul3 a1 XOR a2 XOR a3,
      a0 XOR xtime a1 XOR mul3 a2 XOR a3,
      a0 XOR a1 XOR xtime a2 XOR mul3 a3,
      mul3 a0 XOR a1 XOR a2 XOR xtime a3)"

fun inv_mix_column :: "col \<Rightarrow> col" where
  "inv_mix_column (a0, a1, a2, a3) =
     (mul14 a0 XOR mul11 a1 XOR mul13 a2 XOR mul9 a3,
      mul9 a0 XOR mul14 a1 XOR mul11 a2 XOR mul13 a3,
      mul13 a0 XOR mul9 a1 XOR mul14 a2 XOR mul11 a3,
      mul11 a0 XOR mul13 a1 XOR mul9 a2 XOR mul14 a3)"

definition mix_columns :: "state \<Rightarrow> state" where
  "mix_columns = map_state mix_column"

definition inv_mix_columns :: "state \<Rightarrow> state" where
  "inv_mix_columns = map_state inv_mix_column"

text \<open>
  The key schedule of \<open>AES._doReset\<close>: \<open>ksRows = (nRounds + 1) * 4\<close> words, the first
  \<open>keySize\<close> of them the key itself.
\<close>

definition sub_word :: "word32 \<Rightarrow> word32" where
  "sub_word t = (case word_bytes t of
      [a, b, c, d] \<Rightarrow> bytes_word (sbox a) (sbox b) (sbox c) (sbox d) | _ \<Rightarrow> 0)"

definition rot_word :: "word32 \<Rightarrow> word32" where
  "rot_word t = push_bit 8 t OR drop_bit 24 t"

definition ks_row :: "word32 list \<Rightarrow> word32 list \<Rightarrow> nat \<Rightarrow> word32" where
  "ks_row keyWords keySchedule ksRow =
     (let keySize = length keyWords in
      if ksRow < keySize then keyWords ! ksRow
      else
        let t = word_at keySchedule (ksRow - 1);
            t' = (if keySize = 0 \<or> ksRow mod keySize = 0
                  then sub_word (rot_word t) XOR push_bit 24 (word_at RCON (ksRow div keySize))
                  else if keySize > 6 \<and> ksRow mod keySize = 4 then sub_word t
                  else t)
        in word_at keySchedule (ksRow - keySize) XOR t')"

definition key_schedule :: "word32 list \<Rightarrow> word32 list" where
  "key_schedule keyWords =
     foldl (\<lambda>ks ksRow. ks @ [ks_row keyWords ks ksRow]) [] [0 ..< (length keyWords + 6 + 1) * 4]"

definition col_of_word :: "word32 \<Rightarrow> col" where
  "col_of_word w = (ucast (drop_bit 24 w), ucast (drop_bit 16 w), ucast (drop_bit 8 w), ucast w)"

definition state_of_words :: "word32 list \<Rightarrow> state" where
  "state_of_words ws =
     (col_of_word (word_at ws 0), col_of_word (word_at ws 1),
      col_of_word (word_at ws 2), col_of_word (word_at ws 3))"

fun round_keys_of :: "word32 list \<Rightarrow> state list" where
  "round_keys_of (a # b # c # d # ks) = state_of_words [a, b, c, d] # round_keys_of ks"
| "round_keys_of _ = []"

definition round_keys :: "word32 list \<Rightarrow> state list" where
  "round_keys keyWords = round_keys_of (key_schedule keyWords)"

fun enc_rounds :: "state list \<Rightarrow> state \<Rightarrow> state" where
  "enc_rounds [] s = s"
| "enc_rounds [k] s = xor_state (shift_rows (sub_bytes s)) k"
| "enc_rounds (k # ks) s = enc_rounds ks (xor_state (mix_columns (shift_rows (sub_bytes s))) k)"

fun dec_rounds :: "state list \<Rightarrow> state \<Rightarrow> state" where
  "dec_rounds [] s = s"
| "dec_rounds [k] s = inv_sub_bytes (inv_shift_rows (xor_state s k))"
| "dec_rounds (k # ks) s =
     inv_sub_bytes (inv_shift_rows (inv_mix_columns (xor_state (dec_rounds ks s) k)))"

definition encryptBlock :: "word32 list \<Rightarrow> state \<Rightarrow> state" where
  "encryptBlock key s =
     (case round_keys key of [] \<Rightarrow> s | k0 # ks \<Rightarrow> enc_rounds ks (xor_state s k0))"

definition decryptBlock :: "word32 list \<Rightarrow> state \<Rightarrow> state" where
  "decryptBlock key s =
     (case round_keys key of [] \<Rightarrow> s | k0 # ks \<Rightarrow> xor_state (dec_rounds ks s) k0)"

section \<open>Encoders of CryptoJS\<close>

subsection \<open>Hex\<close>

text \<open>\<open>Hex.stringify\<close>: two lower-case digits per significant byte.\<close>

definition hex_digit :: "nat \<Rightarrow> 16 word" where
  "hex_digit n = (if n < 10 then word_of_nat (48 + n) else word_of_nat (87 + n))"

definition hex_byte :: "byte \<Rightarrow> jsstring" where
  "hex_byte b = [hex_digit (unat b div 16), hex_digit (unat b mod 16)]"

definition Hex_stringify :: "word32 list \<Rightarrow> jsstring" where
  "Hex_stringify ws = concat (map (\<lambda>w. concat (map hex_byte (word_bytes w))) ws)"

text \<open>
  \<open>parseInt(s, 16)\<close>: leading white space is skipped, a sign and a \<open>0x\<close> prefix are
  accepted, the longest prefix of hexadecimal digits is read; \<open>None\<close> is \<open>NaN\<close>.
\<close>

definition is_white_space :: "16 word \<Rightarrow> bool" where
  "is_white_space c =
     (let k = unat c in
      k \<in> {0x09, 0x0A, 0x0B, 0x0C, 0x0D, 0x20, 0xA0, 0x1680, 0x2028, 0x2029, 0x202F, 0x205F,
            0x3000, 0xFEFF} \<or> (0x2000 \<le> k \<and> k \<le> 0x200A))"

definition digit_value :: "16 word \<Rightarrow> nat option" where
  "digit_value c =
     (let k = unat c in
      if 48 \<le> k \<and> k \<le> 57 then Some (k - 48)
      else if 97 \<le> k \<and> k \<le> 102 then Some (k - 87)
      else if 65 \<le> k \<and> k \<le> 70 then Some (k - 55)
      else None)"

definition digits_value :: "jsstring \<Rightarrow> nat" where
  "digits_value ds = foldl (\<lambda>a c. 16 * a + (case digit_value c of Some v \<Rightarrow> v | None \<Rightarrow> 0)) 0 ds"

definition parseInt16 :: "jsstring \<Rightarrow> int option" where
  "parseInt16 s =
     (let s1 = dropWhile is_white_space s;
          negative = (s1 \<noteq> [] \<and> hd s1 = 0x2D);
          s2 = (if s1 \<noteq> [] \<and> (hd s1 = 0x2B \<or> hd s1 = 0x2D) then tl s1 else s1);
          s3 = (if take 2 s2 = [0x30, 0x78] \<or> take 2 s2 = [0x30, 0x58] then drop 2 s2 else s2);
          ds = takeWhile (\<lambda>c. digit_value c \<noteq> None) s3
      in if ds = [] then None
         else Some (if negative then - int (digits_value ds) else int (digits_value ds)))"

text \<open>
  \<open>Hex.parse\<close>: \<open>words[i >>> 3] |= parseInt(hexStr.substr(i, 2), 16) << (24 - (i % 8) * 4)\<close>
  for \<open>i = 0, 2, 4, ...\<close>; \<open>NaN << n\<close> is 0. Only the words are kept: the cipher mode
  reads \<open>iv.words\<close> and never \<open>iv.sigBytes\<close>.
\<close>

definition pair_value :: "jsstring \<Rightarrow> word32" where
  "pair_value p = (case parseInt16 p of None \<Rightarrow> 0 | Some v \<Rightarrow> word_of_int v)"

function Hex_parse :: "jsstring \<Rightarrow> word32 list" where
  "Hex_parse hexStr =
     (if hexStr = [] then []
      else (push_bit 24 (pair_value (take 2 hexStr))
            OR push_bit 16 (pair_value (take 2 (drop 2 hexStr)))
            OR push_bit 8 (pair_value (take 2 (drop 4 hexStr)))
            OR pair_value (take 2 (drop 6 hexStr)))
           # Hex_parse (drop 8 hexStr))"
  by pat_completeness auto
termination
  by (relation "measure length") auto

declare Hex_parse.simps [simp del]

subsection \<open>Base64\<close>

definition base64_map :: "string" where
  "base64_map = ''ABCDEFGHIJKLMNOPQRSTUVWXYZabcdefghijklmnopqrstuvwxyz0123456789+/=''"

definition base64_char :: "nat \<Rightarrow> 16 word" where
  "base64_char i = js base64_map ! i"

text \<open>\<open>reverseMap[c]\<close>; a character outside the map gives \<open>undefined\<close>, which the
  shifts of \<open>parseLoop\<close> read as 0.\<close>

definition base64_index :: "16 word \<Rightarrow> nat" where
  "base64_index c =
     (let k = unat c in
      if 65 \<le> k \<and> k \<le> 90 then k - 65
      else if 97 \<le> k \<and> k \<le> 122 then k - 71
      else if 48 \<le> k \<and> k \<le> 57 then k + 4
      else if k = 43 then 62
      else if k = 47 then 63
      else if k = 61 then 64
      else 0)"

definition reverseMap :: "16 word \<Rightarrow> word32" where
  "reverseMap c = word_of_nat (base64_index c)"

text \<open>
  \<open>Base64.stringify\<close>: three bytes make the triplet
  \<open>(byte1 << 16) | (byte2 << 8) | byte3\<close>, and character \<open>j\<close> of the group is
  \<open>map.charAt((triplet >>> (6 * (3 - j))) & 0x3f)\<close>; a last group of one or two bytes is
  filled with the padding character.
\<close>

definition triplet :: "byte \<Rightarrow> byte \<Rightarrow> byte \<Rightarrow> word32" where
  "triplet byte1 byte2 byte3 = push_bit 16 (ucast byte1) OR push_bit 8 (ucast byte2) OR ucast byte3"

definition six_bits :: "word32 \<Rightarrow> nat \<Rightarrow> word32" where
  "six_bits t j = drop_bit (6 * (3 - j)) t AND 0x3f"

definition sextet :: "word32 \<Rightarrow> nat \<Rightarrow> 16 word" where
  "sextet t j = base64_char (unat (six_bits t j))"

fun Base64_stringify :: "byte list \<Rightarrow> jsstring" where
  "Base64_stringify [] = []"
| "Base64_stringify [a] =
     (let t = triplet a 0 0 in [sextet t 0, sextet t 1, base64_char 64, base64_char 64])"
| "Base64_stringify [a, b] =
     (let t = triplet a b 0 in [sextet t 0, sextet t 1, sextet t 2, base64_char 64])"
| "Base64_stringify (a # b # c # bs) =
     (let t = triplet a b c
      in sextet t 0 # sextet t 1 # sextet t 2 # sextet t 3 # Base64_stringify bs)"

text \<open>
  \<open>Base64.parse\<close>: the string is cut at the first padding character; every position
  \<open>i\<close> with \<open>i % 4 \<noteq> 0\<close> yields one byte, the low eight bits of
  \<open>(reverseMap[s[i-1]] << (i % 4) * 2) | (reverseMap[s[i]] >>> (6 - (i % 4) * 2))\<close>.
\<close>

definition join_bits :: "word32 \<Rightarrow> word32 \<Rightarrow> nat \<Rightarrow> byte" where
  "join_bits r1 r2 k = ucast (push_bit (k * 2) r1 OR drop_bit (6 - k * 2) r2)"

fun parseLoop :: "word32 list \<Rightarrow> byte list" where
  "parseLoop (a # b # c # d # rs) =
     join_bits a b 1 # join_bits b c 2 # join_bits c d 3 # parseLoop rs"
| "parseLoop [a, b, c] = [join_bits a b 1, join_bits b c 2]"
| "parseLoop [a, b] = [join_bits a b 1]"
| "parseLoop _ = []"

definition Base64_parse :: "jsstring \<Rightarrow> byte list" where
  "Base64_parse base64Str = parseLoop (map reverseMap (takeWhile (\<lambda>c. c \<noteq> 0x3D) base64Str))"

subsection \<open>Utf8\<close>

text \<open>
  \<open>Utf8.parse(s)\<close> is \<open>Latin1.parse(unescape(encodeURIComponent(s)))\<close>: the UTF-8 bytes
  of the string, read as UTF-16; \<open>encodeURIComponent\<close> throws a \<open>URIError\<close> on a
  surrogate code unit that is not part of a pair.
\<close>

definition utf8_bytes :: "nat \<Rightarrow> byte list" where
  "utf8_bytes v =
     (if v < 0x80 then [word_of_nat v]
      else if v < 0x800 then [word_of_nat (0xC0 + v div 64), word_of_nat (0x80 + v mod 64)]
      else if v < 0x10000 then
        [word_of_nat (0xE0 + v div 4096), word_of_nat (0x80 + v div 64 mod 64),
         word_of_nat (0x80 + v mod 64)]
      else
        [word_of_nat (0xF0 + v div 262144), word_of_nat (0x80 + v div 4096 mod 64),
         word_of_nat (0x80 + v div 64 mod 64), word_of_nat (0x80 + v mod 64)])"

definition is_high_surrogate :: "16 word \<Rightarrow> bool" where
  "is_high_surrogate c = (0xD800 \<le> unat c \<and> unat c \<le> 0xDBFF)"

definition is_low_surrogate :: "16 word \<Rightarrow> bool" where
  "is_low_surrogate c = (0xDC00 \<le> unat c \<and> unat c \<le> 0xDFFF)"

fun Utf8_parse :: "jsstring \<Rightarrow> error + byte list" where
  "Utf8_parse [] = Inr []"
| "Utf8_parse (c # cs) =
     (if is_low_surrogate c then Inl URIError
      else if is_high_surrogate c then
        (case cs of
           [] \<Rightarrow> Inl URIError
         | d # ds \<Rightarrow>
             if is_low_surrogate d then
               (case Utf8_parse ds of
                  Inl e \<Rightarrow> Inl e
                | Inr bs \<Rightarrow>
                    Inr (utf8_bytes ((unat c - 0xD800) * 0x400 + (unat d - 0xDC00) + 0x10000) @ bs))
             else Inl URIError)
      else (case Utf8_parse cs of Inl e \<Rightarrow> Inl e | Inr bs \<Rightarrow> Inr (utf8_bytes (unat c) @ bs)))"

text \<open>The strings that \<open>encodeURIComponent\<close> accepts (\<open>String.prototype.isWellFormed\<close>):
  every surrogate code unit is part of a pair.\<close>

fun well_formed :: "jsstring \<Rightarrow> bool" where
  "well_formed [] = True"
| "well_formed (c # cs) =
     (if is_low_surrogate c then False
      else if is_high_surrogate c then
        (case cs of [] \<Rightarrow> False | d # ds \<Rightarrow> is_low_surrogate d \<and> well_formed ds)
      else well_formed cs)"

text \<open>
  \<open>Utf8.stringify(wordArray)\<close> is \<open>decodeURIComponent(escape(Latin1.stringify(wordArray)))\<close>
  and turns the \<open>URIError\<close> of any ill-formed sequence (a stray continuation byte, a
  truncated or overlong sequence, an encoded surrogate, a value above \<open>0x10FFFF\<close>) into
  \<open>Error('Malformed UTF-8 data')\<close>.
\<close>

definition is_continuation :: "byte \<Rightarrow> bool" where
  "is_continuation b = (0x80 \<le> unat b \<and> unat b < 0xC0)"

definition code_units :: "nat \<Rightarrow> jsstring" where
  "code_units v =
     (if v < 0x10000 then [word_of_nat v]
      else [word_of_nat (0xD800 + (v - 0x10000) div 0x400),
            word_of_nat (0xDC00 + (v - 0x10000) mod 0x400)])"

definition Malformed :: "error" where
  "Malformed = Error ''Malformed UTF-8 data''"

fun Utf8_stringify :: "byte list \<Rightarrow> error + jsstring" where
  "Utf8_stringify [] = Inr []"
| "Utf8_stringify (b # bs) =
     (let n = unat b in
      if n < 0x80 then
        (case Utf8_stringify bs of Inl e \<Rightarrow> Inl e | Inr s \<Rightarrow> Inr (word_of_nat n # s))
      else if n < 0xC0 then Inl Malformed
      else if n < 0xE0 then
        (case bs of
           b1 # r \<Rightarrow>
             (let v = (n - 0xC0) * 64 + (unat b1 - 0x80)
              in if is_continuation b1 \<and> 0x80 \<le> v then
                   (case Utf8_stringify r of Inl e \<Rightarrow> Inl e | Inr s \<Rightarrow> Inr (code_units v @ s))
                 else Inl Malformed)
         | _ \<Rightarrow> Inl Malformed)
      else if n < 0xF0 then
        (case bs of
           b1 # b2 # r \<Rightarrow>
             (let v = (n - 0xE0) * 4096 + (unat b1 - 0x80) * 64 + (unat b2 - 0x80)
              in if is_continuation b1 \<and> is_continuation b2 \<and> 0x800 \<le> v
                    \<and> \<not> (0xD800 \<le> v \<and> v \<le> 0xDFFF) then
                   (case Utf8_stringify r of Inl e \<Rightarrow> Inl e | Inr s \<Rightarrow> Inr (code_units v @ s))
                 else Inl Malformed)
         | _ \<Rightarrow> Inl Malformed)
      else if n < 0xF8 then
        (case bs of
           b1 # b2 # b3 # r \<Rightarrow>
             (let v = (n - 0xF0) * 262144 + (unat b1 - 0x80) * 4096 + (unat b2 - 0x80) * 64
                      + (unat b3 - 0x80)
              in if is_continuation b1 \<and> is_continuation b2 \<and> is_continuation b3
                    \<and> 0x10000 \<le> v \<and> v \<le> 0x10FFFF then
                   (case Utf8_stringify r of Inl e \<Rightarrow> Inl e | Inr s \<Rightarrow> Inr (code_units v @ s))
                 else Inl Malformed)
         | _ \<Rightarrow> Inl Malformed)
      else Inl Malformed)"

section \<open>CBC mode, PKCS7 padding and the OpenSSL format\<close>

definition state_of_bytes :: "byte list \<Rightarrow> state" where
  "state_of_bytes bs =
     ((byte_at bs 0, byte_at bs 1, byte_at bs 2, byte_at bs 3),
      (byte_at bs 4, byte_at bs 5, byte_at bs 6, byte_at bs 7),
      (byte_at bs 8, byte_at bs 9, byte_at bs 10, byte_at bs 11),
      (byte_at bs 12, byte_at bs 13, byte_at bs 14, byte_at bs 15))"

fun bytes_of_state :: "state \<Rightarrow> byte list" where
  "bytes_of_state ((a0, a1, a2, a3), (b0, b1, b2, b3), (c0, c1, c2, c3), (d0, d1, d2, d3)) =
     [a0, a1, a2, a3, b0, b1, b2, b3, c0, c1, c2, c3, d0, d1, d2, d3]"

text \<open>\<open>Pkcs7.pad\<close>: between 1 and 16 bytes, each holding their number.\<close>

definition Pkcs7_pad :: "byte list \<Rightarrow> byte list" where
  "Pkcs7_pad data =
     (let nPaddingBytes = 16 - length data mod 16
      in data @ replicate nPaddingBytes (word_of_nat nPaddingBytes))"

text \<open>
  \<open>CBC.Encryptor.processBlock\<close>: the block is XORed with the previous ciphertext block
  (the first four words of the IV for the first block) and encrypted.
\<close>

function CBC_encrypt :: "word32 list \<Rightarrow> state \<Rightarrow> byte list \<Rightarrow> byte list" where
  "CBC_encrypt key prevBlock dataBytes =
     (if dataBytes = [] then []
      else let c = encryptBlock key (xor_state (state_of_bytes (take 16 dataBytes)) prevBlock)
           in bytes_of_state c @ CBC_encrypt key c (drop 16 dataBytes))"
  by pat_completeness auto
termination
  by (relation "measure (\<lambda>(key, prevBlock, dataBytes). length dataBytes)") auto

declare CBC_encrypt.simps [simp del]

text \<open>
  \<open>CBC.Decryptor.processBlock\<close>. \<open>_process\<close> rounds the number of blocks up, so a last
  block that is not full is decrypted with its missing bytes read as 0.
\<close>

function CBC_decrypt :: "word32 list \<Rightarrow> state \<Rightarrow> byte list \<Rightarrow> byte list" where
  "CBC_decrypt key prevBlock dataBytes =
     (if dataBytes = [] then []
      else let thisBlock = state_of_bytes (take 16 dataBytes)
           in bytes_of_state (xor_state (decryptBlock key thisBlock) prevBlock)
              @ CBC_decrypt key thisBlock (drop 16 dataBytes))"
  by pat_completeness auto
termination
  by (relation "measure (\<lambda>(key, prevBlock, dataBytes). length dataBytes)") auto

declare CBC_decrypt.simps [simp del]

text \<open>
  \<open>CryptoJS.AES.encrypt(data, key, {iv, mode: CBC, padding: Pkcs7}).toString()\<close> with a
  \<open>WordArray\<close> key: the message is parsed as UTF-8, padded and encrypted; without a salt
  the OpenSSL formatter prints the ciphertext alone, in Base64.
\<close>

definition AES_encrypt :: "jsstring \<Rightarrow> word32 list \<Rightarrow> word32 list \<Rightarrow> error + jsstring" where
  "AES_encrypt message key iv =
     (case Utf8_parse message of
        Inl e \<Rightarrow> Inl e
      | Inr messageBytes \<Rightarrow>
          Inr (Base64_stringify (CBC_encrypt key (state_of_words iv) (Pkcs7_pad messageBytes))))"

text \<open>
  The result of \<open>CryptoJS.AES.decrypt\<close> is a \<open>WordArray\<close>: the bytes of its words and the
  count \<open>sigBytes\<close>, which \<open>Pkcs7.unpad\<close> lowers without any check and which may
  become zero or negative.
\<close>

record WordArray =
  wordBytes :: "byte list"
  sigBytes :: int

definition Salted :: "byte list" where
  "Salted = [0x53, 0x61, 0x6c, 0x74, 0x65, 0x64, 0x5f, 0x5f]"

text \<open>
  \<open>OpenSSL.parse\<close>: the Base64 text is decoded; when its first two words spell
  \<open>Salted__\<close> the first four words are taken off as marker and salt.
\<close>

definition OpenSSL_parse :: "jsstring \<Rightarrow> WordArray" where
  "OpenSSL_parse openSSLStr =
     (let ciphertext = Base64_parse openSSLStr
      in if take 8 ciphertext = Salted
         then \<lparr>wordBytes = drop 16 ciphertext, sigBytes = int (length ciphertext) - 16\<rparr>
         else \<lparr>wordBytes = ciphertext, sigBytes = int (length ciphertext)\<rparr>)"

text \<open>
  \<open>CryptoJS.AES.decrypt(ciphertext, key, {iv, mode: CBC, padding: Pkcs7})\<close> on a string:
  nothing is processed when no significant byte is left; otherwise \<open>Pkcs7.unpad\<close> reads
  \<open>data.words[(data.sigBytes - 1) >>> 2] & 0xff\<close>, the last byte of the word that holds
  the last significant byte, and subtracts it from \<open>sigBytes\<close>.
\<close>

definition AES_decrypt :: "jsstring \<Rightarrow> word32 list \<Rightarrow> word32 list \<Rightarrow> WordArray" where
  "AES_decrypt ciphertextStr key iv =
     (let ciphertext = OpenSSL_parse ciphertextStr in
      if sigBytes ciphertext \<le> 0 then \<lparr>wordBytes = [], sigBytes = sigBytes ciphertext\<rparr>
      else
        let n = length (wordBytes ciphertext);
            processed = CBC_decrypt key (state_of_words iv) (wordBytes ciphertext);
            nPaddingBytes = unat (byte_at processed (4 * ((n - 1) div 4) + 3))
        in \<lparr>wordBytes = processed, sigBytes = int n - int nPaddingBytes\<rparr>)"

section \<open>crypto.ts\<close>

definition PBKDF2_ITERATIONS :: nat where
  "PBKDF2_ITERATIONS = 10000"

definition KEY_SIZE :: nat where
  "KEY_SIZE = 256 div 32"

definition SALT_SIZE :: nat where
  "SALT_SIZE = 128 div 8"

definition IV_SIZE :: nat where
  "IV_SIZE = 128 div 8"

definition SECURE_STORE_SALT_KEY :: string where
  "SECURE_STORE_SALT_KEY = ''ciphernote_salt''"

definition TEST_DATA_KEY :: string where
  "TEST_DATA_KEY = ''ciphernote_test_data''"

definition TEST_PLAIN_TEXT :: jsstring where
  "TEST_PLAIN_TEXT = js ''CipherNoteTest''"

text \<open>
  \<open>CryptoJS.PBKDF2(password, salt, {keySize, iterations})\<close>. The hash function under
  PBKDF2 depends on the installed version of the library, so the function
  \<open>prf password salt iterations\<close> that yields the key words from the bytes of the password
  and of the salt is a parameter. A string password is parsed as UTF-8 first, and the
  result has exactly \<open>keySize\<close> words.
\<close>

type_synonym pbkdf2 = "byte list \<Rightarrow> byte list \<Rightarrow> nat \<Rightarrow> word32 list"

definition PBKDF2 :: "pbkdf2 \<Rightarrow> jsstring \<Rightarrow> byte list \<Rightarrow> nat \<Rightarrow> nat \<Rightarrow> error + word32 list" where
  "PBKDF2 prf password salt keySize iterations =
     (case Utf8_parse password of
        Inl e \<Rightarrow> Inl e
      | Inr passwordBytes \<Rightarrow>
          Inr (map (word_at (prf passwordBytes salt iterations)) [0 ..< keySize]))"

definition deriveKey :: "pbkdf2 \<Rightarrow> jsstring \<Rightarrow> byte list \<Rightarrow> error + word32 list" where
  "deriveKey prf password salt =
     (case PBKDF2 prf password salt KEY_SIZE PBKDF2_ITERATIONS of
        Inr derived \<Rightarrow> Inr derived
      | Inl e \<Rightarrow> Inl e)"

text \<open>
  \<open>encryptData\<close>; \<open>ivUint8\<close> is the result of \<open>ExpoCrypto.getRandomBytes(IV_SIZE)\<close>.
  \<open>WordArray.create(Array.from(ivUint8))\<close> makes every byte one 32-bit word.
\<close>

definition encryptData :: "jsstring \<Rightarrow> word32 list \<Rightarrow> byte list \<Rightarrow> error + jsstring" where
  "encryptData data key ivUint8 =
     (if data = [] then Inl (Error ''Encrypt data received invalid input.'')
      else
        let iv = map ucast ivUint8 in
        case AES_encrypt data key iv of
          Inl e \<Rightarrow> Inl e
        | Inr encrypted \<Rightarrow> Inr (Hex_stringify iv @ js '':'' @ encrypted))"

text \<open>\<open>String.prototype.split\<close> with a one-character separator.\<close>

fun split :: "16 word \<Rightarrow> jsstring \<Rightarrow> jsstring list" where
  "split sep [] = [[]]"
| "split sep (c # cs) =
     (if c = sep then [] # split sep cs
      else (case split sep cs of p # ps \<Rightarrow> (c # p) # ps | [] \<Rightarrow> [[c]]))"

text \<open>The body of the \<open>try\<close> block of \<open>decryptData\<close>; \<open>None\<close> is \<open>null\<close>.\<close>

definition decryptData_try :: "jsstring \<Rightarrow> word32 list \<Rightarrow> error + jsstring option" where
  "decryptData_try encryptedText key =
     (if encryptedText = [] then Inr None
      else
        let parts = split 0x3A encryptedText;
            ivString = hd parts
        in if ivString = [] \<or> length parts < 2 \<or> parts ! 1 = [] then Inr None
           else
             let ciphertext = parts ! 1;
                 iv = Hex_parse ivString;
                 decrypted = AES_decrypt ciphertext key iv
             in if wordBytes decrypted = [] \<or> sigBytes decrypted \<le> 0 then Inr None
                else
                  (case Utf8_stringify (take (nat (sigBytes decrypted)) (wordBytes decrypted)) of
                     Inl e \<Rightarrow> Inl e
                   | Inr plaintext \<Rightarrow> if plaintext = [] then Inr None else Inr (Some plaintext)))"

definition decryptData :: "jsstring \<Rightarrow> word32 list \<Rightarrow> error + jsstring option" where
  "decryptData encryptedText key =
     (case decryptData_try encryptedText key of
        Inl e \<Rightarrow> Inr None
      | Inr r \<Rightarrow> Inr r)"

section \<open>The secure store\<close>

text \<open>
  \<open>expo-secure-store\<close> is a key-value store. Every call may be rejected by the platform:
  the state carries the outcomes of the calls to come (\<open>True\<close> for a rejected call, no
  entry left for a call that goes through).
\<close>

record secure_store =
  items :: "string \<Rightarrow> jsstring option"
  ss_faults :: "bool list"

definition rejected :: "bool list \<Rightarrow> bool" where
  "rejected fs = (case fs of [] \<Rightarrow> False | f # _ \<Rightarrow> f)"

definition setItemAsync :: "string \<Rightarrow> jsstring \<Rightarrow> secure_store \<Rightarrow> (error + unit) \<times> secure_store" where
  "setItemAsync k v s =
     (if rejected (ss_faults s) then (Inl NativeError, s\<lparr>ss_faults := tl (ss_faults s)\<rparr>)
      else (Inr (), s\<lparr>items := (items s)(k \<mapsto> v), ss_faults := tl (ss_faults s)\<rparr>))"

definition getItemAsync :: "string \<Rightarrow> secure_store \<Rightarrow> (error + jsstring option) \<times> secure_store" where
  "getItemAsync k s =
     (if rejected (ss_faults s) then (Inl NativeError, s\<lparr>ss_faults := tl (ss_faults s)\<rparr>)
      else (Inr (items s k), s\<lparr>ss_faults := tl (ss_faults s)\<rparr>))"

definition deleteItemAsync :: "string \<Rightarrow> secure_store \<Rightarrow> (error + unit) \<times> secure_store" where
  "deleteItemAsync k s =
     (if rejected (ss_faults s) then (Inl NativeError, s\<lparr>ss_faults := tl (ss_faults s)\<rparr>)
      else (Inr (), s\<lparr>items := (items s)(k := None), ss_faults := tl (ss_faults s)\<rparr>))"

text \<open>\<open>storeSalt\<close>: \<open>salt.toString(CryptoJS.enc.Base64)\<close> is written.\<close>

definition storeSalt :: "byte list \<Rightarrow> secure_store \<Rightarrow> (error + unit) \<times> secure_store" where
  "storeSalt salt s =
     (case setItemAsync SECURE_STORE_SALT_KEY (Base64_stringify salt) s of
        (Inl e, s') \<Rightarrow> (Inl (Error ''Failed to store critical encryption data.''), s')
      | (Inr u, s') \<Rightarrow> (Inr (), s'))"

definition getStoredSalt :: "secure_store \<Rightarrow> byte list option \<times> secure_store" where
  "getStoredSalt s =
     (case getItemAsync SECURE_STORE_SALT_KEY s of
        (Inl e, s') \<Rightarrow> (None, s')
      | (Inr None, s') \<Rightarrow> (None, s')
      | (Inr (Some saltBase64), s') \<Rightarrow>
          if saltBase64 = [] then (None, s') else (Some (Base64_parse saltBase64), s'))"

definition hasMasterPassword :: "secure_store \<Rightarrow> bool \<times> secure_store" where
  "hasMasterPassword s = (case getStoredSalt s of (salt, s') \<Rightarrow> (salt \<noteq> None, s'))"

text \<open>
  \<open>setMasterPassword\<close>; \<open>salt\<close> is the result of \<open>generateSalt()\<close> and \<open>ivUint8\<close> the
  random bytes that \<open>encryptData\<close> draws.
\<close>

definition setMasterPassword ::
  "pbkdf2 \<Rightarrow> jsstring \<Rightarrow> byte list \<Rightarrow> byte list \<Rightarrow> secure_store \<Rightarrow> (error + word32 list) \<times> secure_store" where
  "setMasterPassword prf password salt ivUint8 s =
     (if password = [] then (Inl (Error ''Password cannot be empty.''), s)
      else
        case storeSalt salt s of
          (Inl e, s1) \<Rightarrow> (Inl e, s1)
        | (Inr u, s1) \<Rightarrow>
            (case deriveKey prf password salt of
               Inl e \<Rightarrow> (Inl e, s1)
             | Inr derivedKey \<Rightarrow>
                 if int (length derivedKey) * 4 = 0
                 then (Inl (Error ''Failed to derive encryption key.''), s1)
                 else
                   (case encryptData TEST_PLAIN_TEXT derivedKey ivUint8 of
                      Inl e \<Rightarrow>
                        (Inl (Error ''Failed to secure internal test data for password verification.''), s1)
                    | Inr encryptedTest \<Rightarrow>
                        (case setItemAsync TEST_DATA_KEY encryptedTest s1 of
                           (Inl e, s2) \<Rightarrow>
                             (Inl (Error ''Failed to secure internal test data for password verification.''), s2)
                         | (Inr u', s2) \<Rightarrow> (Inr derivedKey, s2)))))"

definition verifyMasterPassword ::
  "pbkdf2 \<Rightarrow> jsstring \<Rightarrow> secure_store \<Rightarrow> (error + word32 list option) \<times> secure_store" where
  "verifyMasterPassword prf password s =
     (if password = [] then (Inr None, s)
      else
        case getStoredSalt s of
          (None, s1) \<Rightarrow> (Inr None, s1)
        | (Some salt, s1) \<Rightarrow>
            (case deriveKey prf password salt of
               Inl e \<Rightarrow> (Inl e, s1)
             | Inr derivedKey \<Rightarrow>
                 (case getItemAsync TEST_DATA_KEY s1 of
                    (Inl e, s2) \<Rightarrow> (Inl e, s2)
                  | (Inr None, s2) \<Rightarrow> (Inr None, s2)
                  | (Inr (Some STORED_TEST_DATA), s2) \<Rightarrow>
                      if STORED_TEST_DATA = [] then (Inr None, s2)
                      else
                        (case decryptData STORED_TEST_DATA derivedKey of
                           Inl e \<Rightarrow> (Inl e, s2)
                         | Inr decryptedTest \<Rightarrow>
                             if decryptedTest = Some TEST_PLAIN_TEXT
                             then (Inr (Some derivedKey), s2)
                             else (Inr None, s2)))))"

definition clearMasterPassword :: "secure_store \<Rightarrow> (error + unit) \<times> secure_store" where
  "clearMasterPassword s =
     (case deleteItemAsync SECURE_STORE_SALT_KEY s of
        (Inl e, s1) \<Rightarrow> (Inl (Error ''Failed to clear master password data.''), s1)
      | (Inr u, s1) \<Rightarrow>
          (case deleteItemAsync TEST_DATA_KEY s1 of
             (Inl e, s2) \<Rightarrow> (Inl (Error ''Failed to clear master password data.''), s2)
           | (Inr u', s2) \<Rightarrow> (Inr (), s2)))"

section \<open>noteStorage.ts\<close>

record Note =
  note_id :: jsstring
  content :: jsstring
  note_timestamp :: int

text \<open>
  The values that \<open>JSON.parse\<close> returns. An object is the list of its own properties, each
  name once. Numbers are the integers, as \<open>Date.now()\<close> yields them; a text with a fraction
  or an exponent is outside the model.
\<close>

datatype json =
  JNull | JBool bool | JNumber int | JString jsstring | JArray "json list"
  | JObject "(jsstring \<times> json) list"

text \<open>The object literal \<open>{ id: note.id, timestamp: note.timestamp }\<close> of the interface
  \<open>StoredNoteMetadata\<close>.\<close>

definition StoredNoteMetadata :: "jsstring \<Rightarrow> int \<Rightarrow> json" where
  "StoredNoteMetadata ident t = JObject [(js ''id'', JString ident), (js ''timestamp'', JNumber t)]"

text \<open>
  A property read \<open>m.id\<close> or \<open>m.timestamp\<close>: a \<open>TypeError\<close> on \<open>null\<close>, the value of
  the property on an object that has it, and \<open>undefined\<close> (\<open>None\<close>) otherwise; no
  boolean, number, string or array has a property of either name.
\<close>

fun property :: "json \<Rightarrow> jsstring \<Rightarrow> error + json option" where
  "property JNull name = Inl TypeError"
| "property (JObject props) name = Inr (map_of props name)"
| "property m name = Inr None"

text \<open>The callbacks \<open>m => m.id === id\<close> of \<open>saveNote\<close> and \<open>m => m.id !== id\<close> of
  \<open>deleteNote\<close>; \<open>id\<close> is a string.\<close>

definition id_is :: "jsstring \<Rightarrow> json \<Rightarrow> error + bool" where
  "id_is ident m =
     (case property m (js ''id'') of Inl e \<Rightarrow> Inl e | Inr v \<Rightarrow> Inr (v = Some (JString ident)))"

definition id_is_not :: "jsstring \<Rightarrow> json \<Rightarrow> error + bool" where
  "id_is_not ident m =
     (case property m (js ''id'') of Inl e \<Rightarrow> Inl e | Inr v \<Rightarrow> Inr (v \<noteq> Some (JString ident)))"

text \<open>
  The methods \<open>findIndex\<close>, \<open>filter\<close> and \<open>sort\<close> exist on arrays only: the call is a
  \<open>TypeError\<close> on every other value.
\<close>

definition as_array :: "json \<Rightarrow> error + json list" where
  "as_array v = (case v of JArray ms \<Rightarrow> Inr ms | _ \<Rightarrow> Inl TypeError)"

text \<open>\<open>Array.prototype.filter\<close> with a callback that may throw.\<close>

fun filter_array :: "(json \<Rightarrow> error + bool) \<Rightarrow> json list \<Rightarrow> error + json list" where
  "filter_array p [] = Inr []"
| "filter_array p (m # ms) =
     (case p m of
        Inl e \<Rightarrow> Inl e
      | Inr keep \<Rightarrow>
          (case filter_array p ms of
             Inl e \<Rightarrow> Inl e
           | Inr r \<Rightarrow> Inr (if keep then m # r else r)))"

text \<open>\<open>findIndex\<close> and the assignment \<open>metadata[existingIndex] = newMetadata\<close> or the
  \<open>push\<close> that follows it in \<open>saveNote\<close>.\<close>

fun upsert :: "json \<Rightarrow> jsstring \<Rightarrow> json list \<Rightarrow> error + json list" where
  "upsert newMetadata ident [] = Inr [newMetadata]"
| "upsert newMetadata ident (m # ms) =
     (case id_is ident m of
        Inl e \<Rightarrow> Inl e
      | Inr found \<Rightarrow>
          if found then Inr (newMetadata # ms)
          else (case upsert newMetadata ident ms of Inl e \<Rightarrow> Inl e | Inr r \<Rightarrow> Inr (m # r)))"









text \<open>
  The file system under \<open>FileSystem.documentDirectory\<close>: whether the directory
  \<open>notes/\<close> exists, the text files by path, and the metadata file. The metadata file is
  kept as what \<open>JSON.parse\<close> makes of its text: it is absent, or its text does not parse,
  or it parses to a value. Calls may be rejected as in the secure store.
\<close>

datatype metadata_file = Missing | Unparseable | Parsed json

record file_system =
  documentDirectory :: jsstring
  isDirectory :: bool
  files :: "jsstring \<Rightarrow> jsstring option"
  metadata :: metadata_file
  fs_faults :: "bool list"

definition NOTES_DIR :: "file_system \<Rightarrow> jsstring" where
  "NOTES_DIR fs = documentDirectory fs @ js ''notes/''"

definition filePath :: "file_system \<Rightarrow> jsstring \<Rightarrow> jsstring" where
  "filePath fs ident = NOTES_DIR fs @ ident @ js ''.encrypted''"

definition step :: "file_system \<Rightarrow> file_system" where
  "step fs = fs\<lparr>fs_faults := tl (fs_faults fs)\<rparr>"

text \<open>\<open>getInfoAsync(NOTES_DIR).isDirectory\<close> and \<open>getInfoAsync(path).exists\<close>.\<close>

definition getInfoAsync_isDirectory :: "file_system \<Rightarrow> (error + bool) \<times> file_system" where
  "getInfoAsync_isDirectory fs =
     (if rejected (fs_faults fs) then (Inl NativeError, step fs)
      else (Inr (isDirectory fs), step fs))"

definition getInfoAsync_exists :: "jsstring \<Rightarrow> file_system \<Rightarrow> (error + bool) \<times> file_system" where
  "getInfoAsync_exists path fs =
     (if rejected (fs_faults fs) then (Inl NativeError, step fs)
      else (Inr (files fs path \<noteq> None), step fs))"

definition makeDirectoryAsync :: "file_system \<Rightarrow> (error + unit) \<times> file_system" where
  "makeDirectoryAsync fs =
     (if rejected (fs_faults fs) then (Inl NativeError, step fs)
      else (Inr (), step (fs\<lparr>isDirectory := True\<rparr>)))"

definition writeAsStringAsync :: "jsstring \<Rightarrow> jsstring \<Rightarrow> file_system \<Rightarrow> (error + unit) \<times> file_system" where
  "writeAsStringAsync path text fs =
     (if rejected (fs_faults fs) then (Inl NativeError, step fs)
      else (Inr (), step (fs\<lparr>files := (files fs)(path \<mapsto> text)\<rparr>)))"


definition deleteAsync :: "jsstring \<Rightarrow> file_system \<Rightarrow> (error + unit) \<times> file_system" where
  "deleteAsync path fs =
     (if rejected (fs_faults fs) \<or> files fs path = None then (Inl NativeError, step fs)
      else (Inr (), step (fs\<lparr>files := (files fs)(path := None)\<rparr>)))"

text \<open>\<open>JSON.parse(await FileSystem.readAsStringAsync(METADATA_FILE))\<close>.\<close>

definition readMetadata :: "file_system \<Rightarrow> (error + json) \<times> file_system" where
  "readMetadata fs =
     (if rejected (fs_faults fs) then (Inl NativeError, step fs)
      else (case metadata fs of
              Missing \<Rightarrow> (Inl NativeError, step fs)
            | Unparseable \<Rightarrow> (Inl SyntaxError, step fs)
            | Parsed v \<Rightarrow> (Inr v, step fs)))"

text \<open>\<open>FileSystem.writeAsStringAsync(METADATA_FILE, JSON.stringify(metadata))\<close> for an
  array \<open>metadata\<close>.\<close>

definition writeMetadata :: "json list \<Rightarrow> file_system \<Rightarrow> (error + unit) \<times> file_system" where
  "writeMetadata ms fs =
     (if rejected (fs_faults fs) then (Inl NativeError, step fs)
      else (Inr (), step (fs\<lparr>metadata := Parsed (JArray ms)\<rparr>)))"

definition ensureDirExists :: "file_system \<Rightarrow> (error + unit) \<times> file_system" where
  "ensureDirExists fs =
     (case getInfoAsync_isDirectory fs of
        (Inl e, fs1) \<Rightarrow> (Inl e, fs1)
      | (Inr dir, fs1) \<Rightarrow> if \<not> dir then makeDirectoryAsync fs1 else (Inr (), fs1))"

text \<open>
  The inner \<open>try\<close> of \<open>saveNote\<close> and of \<open>deleteNote\<close>: the parsed metadata file, or the
  empty array when the read or the parse throws.
\<close>

definition readMetadata_or_empty :: "file_system \<Rightarrow> json \<times> file_system" where
  "readMetadata_or_empty fs =
     (case readMetadata fs of
        (Inl e, fs1) \<Rightarrow> (JArray [], fs1)
      | (Inr v, fs1) \<Rightarrow> (v, fs1))"

definition saveNote ::
  "Note \<Rightarrow> word32 list \<Rightarrow> byte list \<Rightarrow> file_system \<Rightarrow> (error + Note) \<times> file_system" where
  "saveNote note encryptionKey ivUint8 fs =
     (case ensureDirExists fs of
        (Inl e, fs1) \<Rightarrow> (Inl e, fs1)
      | (Inr u, fs1) \<Rightarrow>
          (case encryptData (content note) encryptionKey ivUint8 of
             Inl e \<Rightarrow> (Inl e, fs1)
           | Inr encryptedContent \<Rightarrow>
               (case writeAsStringAsync (filePath fs1 (note_id note)) encryptedContent fs1 of
                  (Inl e, fs2) \<Rightarrow> (Inl e, fs2)
                | (Inr u', fs2) \<Rightarrow>
                    (case readMetadata_or_empty fs2 of
                       (metadata0, fs3) \<Rightarrow>
                         (case as_array metadata0 of
                            Inl e \<Rightarrow> (Inl e, fs3)
                          | Inr ms \<Rightarrow>
                              (case upsert (StoredNoteMetadata (note_id note) (note_timestamp note))
                                      (note_id note) ms of
                                 Inl e \<Rightarrow> (Inl e, fs3)
                               | Inr ms' \<Rightarrow>
                                   (case writeMetadata ms' fs3 of
                                      (Inl e, fs4) \<Rightarrow> (Inl e, fs4)
                                    | (Inr u'', fs4) \<Rightarrow> (Inr note, fs4))))))))"





text \<open>\<open>deleteNote\<close>: the body of the outer \<open>try\<close>, then the function with the
  \<open>catch\<close> that replaces whatever was thrown by \<open>Error('Failed to delete note.')\<close>.\<close>

definition deleteNote_try :: "jsstring \<Rightarrow> file_system \<Rightarrow> (error + unit) \<times> file_system" where
  "deleteNote_try ident fs =
     (case getInfoAsync_exists (filePath fs ident) fs of
        (Inl e, fs1) \<Rightarrow> (Inl e, fs1)
      | (Inr ex, fs1) \<Rightarrow>
          (case (if ex then deleteAsync (filePath fs1 ident) fs1 else (Inr (), fs1)) of
             (Inl e, fs2) \<Rightarrow> (Inl e, fs2)
           | (Inr u, fs2) \<Rightarrow>
               (case readMetadata_or_empty fs2 of
                  (metadata0, fs3) \<Rightarrow>
                    (case as_array metadata0 of
                       Inl e \<Rightarrow> (Inl e, fs3)
                     | Inr ms \<Rightarrow>
                         (case filter_array (id_is_not ident) ms of
                            Inl e \<Rightarrow> (Inl e, fs3)
                          | Inr updatedMetadata \<Rightarrow> writeMetadata updatedMetadata fs3)))))"

definition deleteNote :: "jsstring \<Rightarrow> file_system \<Rightarrow> (error + unit) \<times> file_system" where
  "deleteNote ident fs =
     (case ensureDirExists fs of
        (Inl e, fs1) \<Rightarrow> (Inl e, fs1)
      | (Inr u, fs1) \<Rightarrow>
          (case deleteNote_try ident fs1 of
             (Inl e, fs2) \<Rightarrow> (Inl (Error ''Failed to delete note.''), fs2)
           | (Inr u', fs2) \<Rightarrow> (Inr (), fs2)))"

section \<open>Notions used in the statements\<close>


definition entry_timestamp :: "json \<Rightarrow> int" where
  "entry_timestamp m =
     (case property m (js ''timestamp'') of Inr (Some (JNumber t)) \<Rightarrow> t | _ \<Rightarrow> 0)"

definition has_id :: "jsstring \<Rightarrow> json \<Rightarrow> bool" where
  "has_id ident m = (property m (js ''id'') = Inr (Some (JString ident)))"

text \<open>Whether the ciphertext of a blob, the Base64 text after its first colon, begins with
  the bytes \<open>Salted__\<close> that \<open>OpenSSL.parse\<close> looks for.\<close>

definition has_salt_marker :: "jsstring \<Rightarrow> bool" where
  "has_salt_marker blob =
     (case split 0x3A blob of
        ivString # ciphertext # rest \<Rightarrow> take 8 (Base64_parse ciphertext) = Salted
      | _ \<Rightarrow> False)"

section \<open>Test vectors\<close>


definition K1 :: "word32 list" where
  "K1 = [0x0000006c, 0x00000000, 0x00000000, 0x00000000, 0x00000000, 0x00000000, 0x00000000, 0x00000000]"

definition IV1 :: "byte list" where
  "IV1 = [0x01, 0x02, 0x03, 0x04, 0x05, 0x06, 0x07, 0x08, 0x09, 0x0a, 0x0b, 0x0c, 0x0d, 0x0e, 0x0f, 0x10]"

definition IV2 :: "byte list" where
  "IV2 = [0x10, 0x02, 0x03, 0x04, 0x05, 0x06, 0x07, 0x08, 0x09, 0x0a, 0x0b, 0x0c, 0x0d, 0x0e, 0x0f, 0x10]"

section \<open>The block cipher is invertible\<close>

lemma xor_col_cancel: "xor_col (xor_col c k) k = c"
  by (induction c k rule: xor_col.induct) (simp add: xor.assoc)

lemma xor_state_cancel: "xor_state (xor_state s k) k = s"
  by (induction s k rule: xor_state.induct) (simp add: xor_col_cancel)

lemma inv_shift_rows_shift_rows: "inv_shift_rows (shift_rows s) = s"
  by (cases s rule: shift_rows.cases) simp

lemma xtime_xor: "xtime (a XOR b) = xtime a XOR xtime b"
  by (cases "bit a 7"; cases "bit b 7") (simp_all add: xtime_def bit_xor_iff push_bit_xor xor.assoc xor.commute xor.left_commute)

lemmas xor_ac_byte = xor.assoc [where 'a = byte] xor.commute [where 'a = byte] xor.left_commute [where 'a = byte]

lemma xor_self_cancel: "a XOR (a XOR b) = (b::byte)"
  by (simp add: xor.assoc [symmetric])

lemma inv_mix_column_mix_column: "inv_mix_column (mix_column c) = c"
  by (cases c rule: mix_column.cases)
     (simp add: mul3_def mul9_def mul11_def mul13_def mul14_def xtime_xor xor_ac_byte xor_self_cancel)

lemma inv_mix_columns_mix_columns: "inv_mix_columns (mix_columns s) = s"
  by (cases s rule: prod_cases4) (simp add: inv_mix_columns_def mix_columns_def inv_mix_column_mix_column)



lemma inv_sbox_table: "map (\<lambda>x. INV_SBOX ! unat x) SBOX = map word_of_nat [0 ..< 256]"
  by (simp add: upt_conv_Cons SBOX_def INV_SBOX_def)

lemma length_SBOX: "length SBOX = 256"
  by (simp add: SBOX_def)

lemma inv_sbox_sbox: "inv_sbox (sbox b) = b"
proof -
  have lt: "unat b < 256" using unsigned_less [of b] by simp
  have "inv_sbox (sbox b) = map (\<lambda>x. INV_SBOX ! unat x) SBOX ! unat b"
    using lt by (simp add: inv_sbox_def sbox_def length_SBOX)
  also have "\<dots> = word_of_nat (unat b)"
    unfolding inv_sbox_table using lt by simp
  finally show ?thesis by simp
qed

lemma inv_sub_bytes_sub_bytes: "inv_sub_bytes (sub_bytes s) = s"
  by (cases s rule: shift_rows.cases) (simp add: inv_sub_bytes_def sub_bytes_def inv_sbox_sbox)

lemma dec_rounds_enc_rounds: "dec_rounds ks (enc_rounds ks s) = s"
  by (induction ks s rule: enc_rounds.induct)
     (simp_all add: xor_state_cancel inv_shift_rows_shift_rows inv_mix_columns_mix_columns
        inv_sub_bytes_sub_bytes)

lemma decryptBlock_encryptBlock: "decryptBlock key (encryptBlock key s) = s"
  by (simp add: decryptBlock_def encryptBlock_def dec_rounds_enc_rounds xor_state_cancel
      split: list.splits)

lemma state_of_bytes_of_state: "state_of_bytes (bytes_of_state s) = s"
  by (cases s rule: shift_rows.cases) (simp add: state_of_bytes_def byte_at_def)

lemma length_bytes_of_state: "length (bytes_of_state s) = 16"
  by (cases s rule: shift_rows.cases) simp

lemma list16:
  assumes "length bs = 16"
  obtains b0 b1 b2 b3 b4 b5 b6 b7 b8 b9 b10 b11 b12 b13 b14 b15
  where "bs = [b0, b1, b2, b3, b4, b5, b6, b7, b8, b9, b10, b11, b12, b13, b14, b15]"
  using assms by (auto simp: eval_nat_numeral length_Suc_conv)

lemma bytes_of_state_of_bytes:
  assumes "length bs = 16"
  shows "bytes_of_state (state_of_bytes bs) = bs"
proof -
  from assms obtain b0 b1 b2 b3 b4 b5 b6 b7 b8 b9 b10 b11 b12 b13 b14 b15
    where "bs = [b0, b1, b2, b3, b4, b5, b6, b7, b8, b9, b10, b11, b12, b13, b14, b15]"
    by (rule list16)
  then show ?thesis
    by (simp add: state_of_bytes_def byte_at_def)
qed

section \<open>CBC decryption undoes CBC encryption\<close>

lemma CBC_encrypt_Nil [simp]: "CBC_encrypt key prev [] = []"
  by (simp add: CBC_encrypt.simps)

lemma CBC_decrypt_Nil [simp]: "CBC_decrypt key prev [] = []"
  by (simp add: CBC_decrypt.simps)

lemma CBC_encrypt_block:
  assumes "length b = 16"
  shows "CBC_encrypt key prev (b @ rest) =
           bytes_of_state (encryptBlock key (xor_state (state_of_bytes b) prev))
           @ CBC_encrypt key (encryptBlock key (xor_state (state_of_bytes b) prev)) rest"
  using assms by (subst CBC_encrypt.simps) (auto simp: Let_def)

lemma CBC_decrypt_block:
  assumes "length b = 16"
  shows "CBC_decrypt key prev (b @ rest) =
           bytes_of_state (xor_state (decryptBlock key (state_of_bytes b)) prev)
           @ CBC_decrypt key (state_of_bytes b) rest"
  using assms by (subst CBC_decrypt.simps) (auto simp: Let_def)

lemma blocks_induct [consumes 1, case_names Nil Block]:
  assumes "16 dvd length bs"
    and "P []"
    and "\<And>b rest. length b = 16 \<Longrightarrow> 16 dvd length rest \<Longrightarrow> P rest \<Longrightarrow> P (b @ rest)"
  shows "P bs"
  using assms(1)
proof (induction "length bs" arbitrary: bs rule: less_induct)
  case less
  show ?case
  proof (cases "bs = []")
    case True
    with assms(2) show ?thesis by simp
  next
    case False
    have len: "16 \<le> length bs"
    proof -
      from less.prems obtain k where k: "length bs = 16 * k" by (auto elim: dvdE)
      with False have "k \<noteq> 0" by (metis length_0_conv mult_0_right)
      with k show ?thesis by simp
    qed
    let ?b = "take 16 bs" and ?r = "drop 16 bs"
    have b: "length ?b = 16" using len by simp
    have r: "16 dvd length ?r" using less.prems len by (simp add: dvd_diff_nat)
    from less.hyps [of ?r] r len have "P ?r" by simp
    from assms(3) [OF b r this] show ?thesis by simp
  qed
qed

lemma CBC_decrypt_encrypt:
  assumes "16 dvd length bs"
  shows "CBC_decrypt key prev (CBC_encrypt key prev bs) = bs"
  using assms
proof (induction bs arbitrary: prev rule: blocks_induct)
  case Nil
  show ?case by simp
next
  case (Block b rest)
  then show ?case
    by (simp add: CBC_encrypt_block CBC_decrypt_block length_bytes_of_state
        state_of_bytes_of_state decryptBlock_encryptBlock xor_state_cancel bytes_of_state_of_bytes)
qed

lemma length_CBC_encrypt:
  assumes "16 dvd length bs"
  shows "length (CBC_encrypt key prev bs) = length bs"
  using assms
proof (induction bs arbitrary: prev rule: blocks_induct)
  case Nil
  show ?case by simp
next
  case (Block b rest)
  then show ?case
    by (simp add: CBC_encrypt_block length_bytes_of_state)
qed

lemma length_Pkcs7_pad: "16 dvd length (Pkcs7_pad bs) \<and> length bs < length (Pkcs7_pad bs) \<and> length (Pkcs7_pad bs) \<le> length bs + 16"
  by (auto simp: Pkcs7_pad_def Let_def dvd_eq_mod_eq_0 mod_simps) presburger

section \<open>The encoders are inverted by their parsers\<close>

subsection \<open>Base64\<close>

lemma unat_word_of_nat16: "n < 65536 \<Longrightarrow> unat (word_of_nat n :: 16 word) = n"
  by (simp add: unat_of_nat)

lemma unat_word_of_nat8: "n < 256 \<Longrightarrow> unat (word_of_nat n :: byte) = n"
  by (simp add: unat_of_nat)

lemma base64_char_code:
  assumes "i < 64"
  shows "unat (base64_char i) =
           (if i < 26 then 65 + i else if i < 52 then 71 + i else if i < 62 then i - 4
            else if i = 62 then 43 else 47)"
proof -
  have "\<forall>i \<in> set [0 ..< 64]. unat (base64_char i) =
           (if i < 26 then 65 + i else if i < 52 then 71 + i else if i < 62 then i - 4
            else if i = 62 then 43 else 47)"
    by (simp add: upt_conv_Cons base64_char_def js_def base64_map_def)
  with assms show ?thesis by simp
qed

lemma base64_index_char: "i < 64 \<Longrightarrow> base64_index (base64_char i) = i"
  by (auto simp: base64_index_def base64_char_code Let_def)

lemma base64_char_not_padding: "i < 64 \<Longrightarrow> base64_char i \<noteq> 0x3D"
  using base64_char_code [of i] by (auto split: if_splits)

lemma base64_char_64: "base64_char 64 = 0x3D"
  by (simp add: base64_char_def js_def base64_map_def)

lemma base64_char_not_colon: "i < 65 \<Longrightarrow> base64_char i \<noteq> 0x3A"
proof (cases "i < 64")
  case True
  then show ?thesis using base64_char_code [of i] by (auto split: if_splits)
next
  case False
  assume "i < 65"
  with False have "i = 64" by simp
  then show ?thesis by (simp add: base64_char_64)
qed

lemma mask6: "(0x3f :: word32) = mask 6"
  by (simp add: mask_eq_exp_minus_1)

lemma Suc_Suc_minus_2: "2 \<le> n \<Longrightarrow> Suc (Suc (n - 2)) = n"
  by simp

lemma join_bits_1: "join_bits (six_bits (triplet a b c) 0) (six_bits (triplet a b c) 1) 1 = a"
  unfolding join_bits_def six_bits_def triplet_def mask6
  by (rule bit_word_eqI) (auto simp: bit_simps Suc_Suc_minus_2 dest: bit_imp_le_length)

lemma join_bits_2: "join_bits (six_bits (triplet a b c) 1) (six_bits (triplet a b c) 2) 2 = b"
  unfolding join_bits_def six_bits_def triplet_def mask6
  by (rule bit_word_eqI) (auto simp: bit_simps dest: bit_imp_le_length)

lemma join_bits_3: "join_bits (six_bits (triplet a b c) 2) (six_bits (triplet a b c) 3) 3 = c"
  unfolding join_bits_def six_bits_def triplet_def mask6
  by (rule bit_word_eqI) (auto simp: bit_simps dest: bit_imp_le_length)

lemma six_bits_less: "unat (six_bits t j) < 64"
proof -
  have "six_bits t j = take_bit 6 (drop_bit (6 * (3 - j)) t)"
    by (simp add: six_bits_def mask6 take_bit_eq_mask)
  moreover have "take_bit 6 (unat (drop_bit (6 * (3 - j)) t)) < (2::nat) ^ 6"
    by (rule take_bit_nat_less_exp)
  ultimately show ?thesis by (simp add: unsigned_take_bit_eq)
qed

lemma reverseMap_sextet: "reverseMap (sextet t j) = six_bits t j"
  by (simp add: reverseMap_def sextet_def base64_index_char six_bits_less)

lemma sextet_not_padding: "sextet t j \<noteq> 0x3D"
  by (simp add: sextet_def base64_char_not_padding six_bits_less)

lemma sextet_not_colon: "sextet t j \<noteq> 0x3A"
proof -
  have "unat (six_bits t j) < 65" using six_bits_less [of t j] by simp
  then show ?thesis by (simp add: sextet_def base64_char_not_colon)
qed

lemma Base64_parse_stringify: "Base64_parse (Base64_stringify bs) = bs"
  by (induction bs rule: Base64_stringify.induct)
     (simp_all add: Base64_parse_def Let_def sextet_not_padding base64_char_64 reverseMap_sextet
        join_bits_1 [unfolded One_nat_def] join_bits_2 [unfolded One_nat_def] join_bits_3)

lemma Base64_stringify_no_colon: "0x3A \<notin> set (Base64_stringify bs)"
  by (induction bs rule: Base64_stringify.induct)
     (auto simp: Let_def sextet_not_colon base64_char_64)

lemma Base64_stringify_nonempty: "bs \<noteq> [] \<Longrightarrow> Base64_stringify bs \<noteq> []"
  by (cases bs rule: Base64_stringify.cases) (simp_all add: Let_def)

subsection \<open>Hex\<close>

lemma hex_digit_code:
  assumes "n < 16"
  shows "unat (hex_digit n) = (if n < 10 then 48 + n else 87 + n)"
  using assms by (simp add: hex_digit_def unat_of_nat del: of_nat_add)

lemma digit_value_hex_digit: "n < 16 \<Longrightarrow> digit_value (hex_digit n) = Some n"
  by (auto simp: digit_value_def hex_digit_code Let_def)

lemma hex_digit_not_white_space: "n < 16 \<Longrightarrow> \<not> is_white_space (hex_digit n)"
  by (auto simp: is_white_space_def hex_digit_code Let_def split: if_splits)

lemma hex_digit_neq:
  assumes "n < 16"
  shows "hex_digit n \<noteq> 0x2B" "hex_digit n \<noteq> 0x2D" "hex_digit n \<noteq> 0x78" "hex_digit n \<noteq> 0x58"
    "hex_digit n \<noteq> 0x3A"
  using hex_digit_code [OF assms] assms by (auto split: if_splits)

lemma parseInt16_hex_digits:
  assumes "hi < 16" "lo < 16"
  shows "parseInt16 [hex_digit hi, hex_digit lo] = Some (int (16 * hi + lo))"
  using assms
  by (simp add: parseInt16_def hex_digit_not_white_space hex_digit_neq digit_value_hex_digit
      digits_value_def Let_def)

lemma pair_value_hex_byte: "pair_value (hex_byte b) = ucast b"
proof -
  have lt: "unat b < 256" using unsigned_less [of b] by simp
  then have "unat b div 16 < 16" "unat b mod 16 < 16" by simp_all
  then have "parseInt16 (hex_byte b) = Some (int (16 * (unat b div 16) + unat b mod 16))"
    unfolding hex_byte_def by (rule parseInt16_hex_digits)
  then have "parseInt16 (hex_byte b) = Some (int (unat b))" by simp
  then show ?thesis by (simp add: pair_value_def)
qed

lemma length_hex_byte: "length (hex_byte b) = 2"
  by (simp add: hex_byte_def)

lemma bytes_word_word_bytes:
  "push_bit 24 (ucast (ucast (drop_bit 24 w) :: byte)) OR push_bit 16 (ucast (ucast (drop_bit 16 w) :: byte))
   OR push_bit 8 (ucast (ucast (drop_bit 8 w) :: byte)) OR ucast (ucast w :: byte) = (w :: word32)"
proof (rule bit_word_eqI)
  fix n assume "n < LENGTH(32)"
  then show "bit (push_bit 24 (ucast (ucast (drop_bit 24 w) :: byte)) OR push_bit 16 (ucast (ucast (drop_bit 16 w) :: byte))
   OR push_bit 8 (ucast (ucast (drop_bit 8 w) :: byte)) OR ucast (ucast w :: byte) :: word32) n = bit w n"
    by (cases "n < 8"; cases "n < 16"; cases "n < 24") (auto simp: bit_simps)
qed


lemma Hex_stringify_Cons:
  "Hex_stringify (w # ws) =
     hex_byte (ucast (drop_bit 24 w)) @ hex_byte (ucast (drop_bit 16 w))
     @ hex_byte (ucast (drop_bit 8 w)) @ hex_byte (ucast w) @ Hex_stringify ws"
  by (simp add: Hex_stringify_def word_bytes_def)

lemma Hex_parse_stringify: "Hex_parse (Hex_stringify ws) = ws"
proof (induction ws)
  case Nil
  show ?case by (simp add: Hex_stringify_def Hex_parse.simps)
next
  case (Cons w ws)
  show ?case
    apply (subst Hex_stringify_Cons)
    apply (subst Hex_parse.simps)
    apply (simp add: hex_byte_def pair_value_hex_byte [unfolded hex_byte_def] bytes_word_word_bytes Cons.IH)
    done
qed

lemma Hex_stringify_no_colon: "0x3A \<notin> set (Hex_stringify ws)"
proof -
  have "0x3A \<notin> set (hex_byte b)" for b
  proof -
    have "unat b < 256" using unsigned_less [of b] by simp
    then have "unat b div 16 < 16" "unat b mod 16 < 16" by simp_all
    then show ?thesis
      using hex_digit_neq(5) [of "unat b div 16"] hex_digit_neq(5) [of "unat b mod 16"]
      by (auto simp: hex_byte_def)
  qed
  then show ?thesis
    by (induction ws) (auto simp: Hex_stringify_Cons Hex_stringify_def)
qed

lemma Hex_stringify_nonempty: "ws \<noteq> [] \<Longrightarrow> Hex_stringify ws \<noteq> []"
  by (cases ws) (simp_all add: Hex_stringify_Cons hex_byte_def)

subsection \<open>Splitting a blob at the colon\<close>

lemma split_no_separator: "sep \<notin> set s \<Longrightarrow> split sep s = [s]"
  by (induction s) auto

lemma split_at_first:
  "sep \<notin> set h \<Longrightarrow> split sep (h @ sep # r) = h # split sep r"
  by (induction h) auto

lemma split_blob:
  assumes "sep \<notin> set h" "sep \<notin> set r"
  shows "split sep (h @ sep # r) = [h, r]"
  using assms by (simp add: split_at_first split_no_separator)

subsection \<open>Utf8\<close>

lemma digit_split: "(q div 64) * (64 * m) + (q mod 64) * m = q * (m::nat)"
proof -
  have "(q div 64) * (64 * m) + (q mod 64) * m = (q div 64 * 64 + q mod 64) * m"
    by (simp only: distrib_right mult.assoc)
  also have "\<dots> = q * m"
    by (simp only: div_mult_mod_eq)
  finally show ?thesis .
qed

lemma two_digits: "(v div 64) * 64 + v mod 64 = (v::nat)"
  by simp

lemma three_digits: "(v div 4096) * 4096 + (v div 64 mod 64) * 64 + v mod 64 = (v::nat)"
proof -
  have "v div 4096 = v div 64 div 64"
    by (simp add: div_mult2_eq [symmetric])
  moreover have "(v div 64 div 64) * (64 * 64) + (v div 64 mod 64) * 64 = v div 64 * 64"
    by (rule digit_split)
  ultimately have "(v div 4096) * 4096 + (v div 64 mod 64) * 64 = v div 64 * 64"
    by simp
  then show ?thesis by simp
qed

lemma four_digits:
  "(v div 262144) * 262144 + (v div 4096 mod 64) * 4096 + (v div 64 mod 64) * 64 + v mod 64 = (v::nat)"
proof -
  have "v div 262144 = v div 4096 div 64"
    by (simp add: div_mult2_eq [symmetric])
  moreover have "(v div 4096 div 64) * (64 * 4096) + (v div 4096 mod 64) * 4096 = v div 4096 * 4096"
    by (rule digit_split)
  ultimately have "(v div 262144) * 262144 + (v div 4096 mod 64) * 4096 = v div 4096 * 4096"
    by simp
  then have "(v div 262144) * 262144 + (v div 4096 mod 64) * 4096 + (v div 64 mod 64) * 64 + v mod 64
                = v div 4096 * 4096 + (v div 64 mod 64) * 64 + v mod 64"
    by simp
  then show ?thesis by (simp only: three_digits)
qed

lemma unat_lead:
  "v < 0x800 \<Longrightarrow> unat (word_of_nat (0xC0 + v div 64) :: byte) = 0xC0 + v div 64"
  "v < 0x10000 \<Longrightarrow> unat (word_of_nat (0xE0 + v div 4096) :: byte) = 0xE0 + v div 4096"
  "v < 0x110000 \<Longrightarrow> unat (word_of_nat (0xF0 + v div 262144) :: byte) = 0xF0 + v div 262144"
  by (simp_all add: unat_of_nat del: of_nat_add)

lemma unat_cont: "unat (word_of_nat (0x80 + x mod 64) :: byte) = 0x80 + x mod 64"
proof -
  have "0x80 + x mod 64 < (256::nat)"
    using mod_less_divisor [of 64 x] by linarith
  then show ?thesis by (simp add: unat_of_nat del: of_nat_add)
qed

lemma is_continuation_cont: "is_continuation (word_of_nat (0x80 + x mod 64))"
  unfolding is_continuation_def unat_cont using mod_less_divisor [of 64 x] by linarith


lemma decode_1:
  assumes "unat b0 < 0x80"
  shows "Utf8_stringify (b0 # rest) =
           (case Utf8_stringify rest of Inl e \<Rightarrow> Inl e | Inr s \<Rightarrow> Inr (code_units (unat b0) @ s))"
  using assms by (simp add: Let_def code_units_def split: sum.splits)

lemma decode_2:
  assumes "unat b0 = 0xC0 + a" "a < 32" "unat b1 = 0x80 + b" "b < 64" "0x80 \<le> a * 64 + b"
  shows "Utf8_stringify (b0 # b1 # rest) =
           (case Utf8_stringify rest of Inl e \<Rightarrow> Inl e | Inr s \<Rightarrow> Inr (code_units (a * 64 + b) @ s))"
  using assms by (simp add: Let_def is_continuation_def split: sum.splits)

lemma decode_3:
  assumes "unat b0 = 0xE0 + a" "a < 16" "unat b1 = 0x80 + b" "b < 64" "unat b2 = 0x80 + c" "c < 64"
    "0x800 \<le> a * 4096 + b * 64 + c"
    "\<not> (0xD800 \<le> a * 4096 + b * 64 + c \<and> a * 4096 + b * 64 + c \<le> 0xDFFF)"
  shows "Utf8_stringify (b0 # b1 # b2 # rest) =
           (case Utf8_stringify rest of Inl e \<Rightarrow> Inl e
            | Inr s \<Rightarrow> Inr (code_units (a * 4096 + b * 64 + c) @ s))"
  using assms by (simp add: Let_def is_continuation_def split: sum.splits)

lemma decode_4:
  assumes "unat b0 = 0xF0 + a" "a < 8" "unat b1 = 0x80 + b" "b < 64" "unat b2 = 0x80 + c" "c < 64"
    "unat b3 = 0x80 + d" "d < 64"
    "0x10000 \<le> a * 262144 + b * 4096 + c * 64 + d" "a * 262144 + b * 4096 + c * 64 + d \<le> 0x10FFFF"
  shows "Utf8_stringify (b0 # b1 # b2 # b3 # rest) =
           (case Utf8_stringify rest of Inl e \<Rightarrow> Inl e
            | Inr s \<Rightarrow> Inr (code_units (a * 262144 + b * 4096 + c * 64 + d) @ s))"
  using assms by (simp add: Let_def is_continuation_def split: sum.splits)

lemma Utf8_stringify_utf8_bytes:
  assumes "v < 0x110000" "\<not> (0xD800 \<le> v \<and> v \<le> 0xDFFF)"
  shows "Utf8_stringify (utf8_bytes v @ rest) =
           (case Utf8_stringify rest of Inl e \<Rightarrow> Inl e | Inr s \<Rightarrow> Inr (code_units v @ s))"
proof -
  consider "v < 0x80" | "0x80 \<le> v" "v < 0x800" | "0x800 \<le> v" "v < 0x10000" | "0x10000 \<le> v"
    by linarith
  then show ?thesis
  proof cases
    case 1
    then have u: "unat (word_of_nat v :: byte) = v" by (simp add: unat_of_nat)
    from 1 have "utf8_bytes v = [word_of_nat v]" by (simp add: utf8_bytes_def)
    with decode_1 [of "word_of_nat v" rest] u 1 show ?thesis by (simp split: sum.splits)
  next
    case 2
    then have b: "utf8_bytes v = [word_of_nat (0xC0 + v div 64), word_of_nat (0x80 + v mod 64)]"
      by (simp add: utf8_bytes_def)
    have "0x80 \<le> v div 64 * 64 + v mod 64" using 2(1) by (simp only: two_digits)
    from decode_2 [OF unat_lead(1) _ unat_cont _ this, of rest] 2
    show ?thesis unfolding b by ((simp only: two_digits append.simps), (simp)?)
  next
    case 3
    then have b: "utf8_bytes v = [word_of_nat (0xE0 + v div 4096), word_of_nat (0x80 + v div 64 mod 64),
         word_of_nat (0x80 + v mod 64)]"
      by (simp add: utf8_bytes_def)
    have c: "0x800 \<le> v div 4096 * 4096 + v div 64 mod 64 * 64 + v mod 64"
      "\<not> (0xD800 \<le> v div 4096 * 4096 + v div 64 mod 64 * 64 + v mod 64
          \<and> v div 4096 * 4096 + v div 64 mod 64 * 64 + v mod 64 \<le> 0xDFFF)"
      unfolding three_digits using 3(1) assms(2) by auto
    from decode_3 [OF unat_lead(2) _ unat_cont _ unat_cont _ c, of rest] 3
    show ?thesis unfolding b by ((simp only: three_digits append.simps), (simp)?)
  next
    case 4
    then have b: "utf8_bytes v = [word_of_nat (0xF0 + v div 262144), word_of_nat (0x80 + v div 4096 mod 64),
         word_of_nat (0x80 + v div 64 mod 64), word_of_nat (0x80 + v mod 64)]"
      by (simp add: utf8_bytes_def)
    have c: "0x10000 \<le> v div 262144 * 262144 + v div 4096 mod 64 * 4096 + v div 64 mod 64 * 64 + v mod 64"
      "v div 262144 * 262144 + v div 4096 mod 64 * 4096 + v div 64 mod 64 * 64 + v mod 64 \<le> 0x10FFFF"
      unfolding four_digits using 4 assms(1) by auto
    from decode_4 [OF unat_lead(3) _ unat_cont _ unat_cont _ unat_cont _ c, of rest] assms(1)
    show ?thesis unfolding b by ((simp only: four_digits append.simps), (simp)?)
  qed
qed

lemma code_units_single:
  assumes "\<not> is_high_surrogate c" "\<not> is_low_surrogate c"
  shows "code_units (unat c) = [c]"
    and "unat c < 0x110000" and "\<not> (0xD800 \<le> unat c \<and> unat c \<le> 0xDFFF)"
proof -
  have lt: "unat c < 65536" using unsigned_less [of c] by simp
  then show "code_units (unat c) = [c]" by (simp add: code_units_def)
  from lt show "unat c < 0x110000" by simp
  from assms show "\<not> (0xD800 \<le> unat c \<and> unat c \<le> 0xDFFF)"
    by (auto simp: is_high_surrogate_def is_low_surrogate_def)
qed

lemma code_units_pair:
  assumes "is_high_surrogate c" "is_low_surrogate d"
  defines "v \<equiv> (unat c - 0xD800) * 0x400 + (unat d - 0xDC00) + 0x10000"
  shows "code_units v = [c, d]" and "v < 0x110000" and "\<not> (0xD800 \<le> v \<and> v \<le> 0xDFFF)"
proof -
  obtain x where x: "unat c = 0xD800 + x" "x < 0x400"
    using assms(1) by (auto simp: is_high_surrogate_def intro: that [of "unat c - 0xD800"])
  obtain y where y: "unat d = 0xDC00 + y" "y < 0x400"
    using assms(2) by (auto simp: is_low_surrogate_def intro: that [of "unat d - 0xDC00"])
  have v: "v = x * 0x400 + y + 0x10000" by (simp add: v_def x y)
  have dm: "(x * 0x400 + y) div 0x400 = x" "(x * 0x400 + y) mod 0x400 = y"
    using y(2) by simp_all
  have "word_of_nat (0xD800 + x) = c" "word_of_nat (0xDC00 + y) = d"
    using x(1) y(1) by (metis of_nat_unat ucast_id)+
  then show "code_units v = [c, d]"
    using dm by (simp add: code_units_def v del: of_nat_add)
  show "v < 0x110000" using x(2) y(2) by (simp add: v)
  show "\<not> (0xD800 \<le> v \<and> v \<le> 0xDFFF)" by (simp add: v)
qed

lemma Utf8_stringify_parse:
  "Utf8_parse s = Inr bs \<Longrightarrow> Utf8_stringify bs = Inr s"
proof (induction s arbitrary: bs rule: well_formed.induct)
  case 1
  then show ?case by simp
next
  case (2 c cs)
  show ?case
  proof (cases "is_high_surrogate c")
    case False
    with "2.prems" have nl: "\<not> is_low_surrogate c" by (auto split: if_splits)
    with False "2.prems" obtain r where r: "Utf8_parse cs = Inr r" "bs = utf8_bytes (unat c) @ r"
      by (auto split: if_splits sum.splits)
    from "2.IH"(2) [OF nl False r(1)] have "Utf8_stringify r = Inr cs" .
    with code_units_single [OF False nl] r(2) show ?thesis
      by (simp add: Utf8_stringify_utf8_bytes)
  next
    case True
    with "2.prems" have nl: "\<not> is_low_surrogate c" by (auto split: if_splits)
    with True "2.prems" obtain d ds r where d: "cs = d # ds" "is_low_surrogate d"
      "Utf8_parse ds = Inr r"
      "bs = utf8_bytes ((unat c - 0xD800) * 0x400 + (unat d - 0xDC00) + 0x10000) @ r"
      by (auto split: if_splits sum.splits list.splits)
    from "2.IH"(1) [OF nl True d(1) d(3)] have "Utf8_stringify r = Inr ds" by simp
    with code_units_pair [OF True d(2)] d show ?thesis
      by (simp add: Utf8_stringify_utf8_bytes)
  qed
qed

lemma utf8_bytes_nonempty: "utf8_bytes v \<noteq> []"
  by (simp add: utf8_bytes_def)

lemma Utf8_parse_nonempty:
  "Utf8_parse s = Inr bs \<Longrightarrow> s \<noteq> [] \<Longrightarrow> bs \<noteq> []"
  by (cases s) (auto simp: utf8_bytes_nonempty split: if_splits sum.splits list.splits)

section \<open>Properties of \<open>encryptData\<close> and \<open>decryptData\<close>\<close>

lemma Utf8_parse_well_formed:
  "well_formed s \<Longrightarrow> \<exists>bs. Utf8_parse s = Inr bs"
  by (induction s rule: well_formed.induct) (auto split: if_splits list.splits sum.splits)

lemma Utf8_parse_ill_formed:
  "\<not> well_formed s \<Longrightarrow> Utf8_parse s = Inl URIError"
  by (induction s rule: well_formed.induct) (auto split: if_splits list.splits sum.splits)

lemma ascii_well_formed: "\<forall>c \<in> set s. unat c < 0x80 \<Longrightarrow> well_formed s"
  by (induction s) (auto simp: is_low_surrogate_def is_high_surrogate_def)

lemma js_ascii: "\<forall>c \<in> set s. of_char c < (128::nat) \<Longrightarrow> \<forall>c \<in> set (js s). unat c < 0x80"
  by (auto simp: js_def unat_of_nat)

lemma TEST_PLAIN_TEXT_well_formed: "well_formed TEST_PLAIN_TEXT"
  by (rule ascii_well_formed, unfold TEST_PLAIN_TEXT_def, rule js_ascii) simp

lemma TEST_PLAIN_TEXT_nonempty: "TEST_PLAIN_TEXT \<noteq> []"
  by (simp add: TEST_PLAIN_TEXT_def js_def)

lemma encryptData_returns:
  assumes "data \<noteq> []" "well_formed data"
  shows "\<exists>encrypted. encryptData data key ivUint8 = Inr (Hex_stringify (map ucast ivUint8) @ js '':'' @ encrypted)"
  using assms Utf8_parse_well_formed [of data]
  by (auto simp: encryptData_def AES_encrypt_def Let_def)

lemma js_colon: "js '':'' = [0x3A]"
  by (simp add: js_def)

lemma Pkcs7_pad_props:
  fixes bs :: "byte list"
  defines "n \<equiv> length (Pkcs7_pad bs)"
  shows "16 dvd n" and "0 < n"
    and "byte_at (Pkcs7_pad bs) (4 * ((n - 1) div 4) + 3) = word_of_nat (n - length bs)"
    and "n - length bs \<le> 16" and "length bs < n"
    and "take (length bs) (Pkcs7_pad bs) = bs"
proof -
  let ?p = "16 - length bs mod 16"
  have p: "0 < ?p" "?p \<le> 16" by simp_all
  have n: "n = length bs + ?p" by (simp add: n_def Pkcs7_pad_def Let_def)
  have "(length bs + ?p) mod 16 = 0"
    by (metis p(1) add.commute add_diff_inverse_nat diff_is_0_eq' le_add_diff_inverse2 less_imp_le_nat
        mod_add_left_eq mod_less_divisor mod_self not_less zero_less_numeral)
  then show d: "16 dvd n" by (simp add: n dvd_eq_mod_eq_0)
  show pos: "0 < n" using p by (simp add: n)
  show "n - length bs \<le> 16" using p by (simp add: n)
  show "length bs < n" using p by (simp add: n)
  show "take (length bs) (Pkcs7_pad bs) = bs" by (simp add: Pkcs7_pad_def Let_def)
  from d obtain k where k: "n = 16 * k" by (auto elim: dvdE)
  with pos obtain m where m: "k = Suc m" by (cases k) auto
  have "n - 1 = 3 + (4 * m + 3) * 4" by (simp add: k m)
  then have "(n - 1) div 4 = 4 * m + 3" by simp
  then have "4 * ((n - 1) div 4) + 3 = n - 1"
    by (simp add: k m)
  moreover have "byte_at (Pkcs7_pad bs) (n - 1) = word_of_nat (n - length bs)"
  proof -
    have i: "n - 1 = length bs + (?p - 1)" "?p - 1 < ?p" using p by (simp_all add: n)
    have "Pkcs7_pad bs ! (length bs + (?p - 1)) = replicate ?p (word_of_nat ?p) ! (?p - 1)"
      unfolding Pkcs7_pad_def Let_def by (rule nth_append_length_plus)
    also have "\<dots> = word_of_nat ?p" using i(2) by (rule nth_replicate)
    finally have "Pkcs7_pad bs ! (n - 1) = word_of_nat (n - length bs)"
      by (simp only: i(1)) (simp add: n)
    moreover have "n - 1 < length (Pkcs7_pad bs)" using pos by (simp add: n_def)
    ultimately show ?thesis by (simp add: byte_at_def)
  qed
  ultimately show "byte_at (Pkcs7_pad bs) (4 * ((n - 1) div 4) + 3) = word_of_nat (n - length bs)"
    by simp
qed


lemma unat_padding: "n \<le> 16 \<Longrightarrow> unat (word_of_nat n :: byte) = n"
  by (simp add: unat_of_nat)

lemma OpenSSL_parse_stringify:
  assumes "take 8 ct \<noteq> Salted"
  shows "OpenSSL_parse (Base64_stringify ct) = \<lparr>wordBytes = ct, sigBytes = int (length ct)\<rparr>"
  using assms by (simp add: OpenSSL_parse_def Base64_parse_stringify)

lemma AES_decrypt_ciphertext:
  fixes bs :: "byte list" and key iv :: "word32 list"
  defines "ct \<equiv> CBC_encrypt key (state_of_words iv) (Pkcs7_pad bs)"
  assumes "take 8 ct \<noteq> Salted"
  shows "AES_decrypt (Base64_stringify ct) key iv
           = \<lparr>wordBytes = Pkcs7_pad bs, sigBytes = int (length bs)\<rparr>"
proof -
  note pad = Pkcs7_pad_props [of bs]
  have len: "length ct = length (Pkcs7_pad bs)"
    unfolding ct_def using pad(1) by (rule length_CBC_encrypt)
  have dec: "CBC_decrypt key (state_of_words iv) ct = Pkcs7_pad bs"
    unfolding ct_def using pad(1) by (rule CBC_decrypt_encrypt)
  have "unat (byte_at (Pkcs7_pad bs) (4 * ((length (Pkcs7_pad bs) - 1) div 4) + 3))
          = length (Pkcs7_pad bs) - length bs"
    using pad(3,4) by (simp add: unat_padding)
  then have "uint (byte_at (Pkcs7_pad bs) (4 * ((length (Pkcs7_pad bs) - 1) div 4) + 3))
          = int (length (Pkcs7_pad bs)) - int (length bs)"
    using pad(5) by (simp add: uint_nat)
  then show ?thesis
    using assms(2) pad(2,5) len dec
    by (simp add: AES_decrypt_def OpenSSL_parse_stringify Let_def)
qed


lemma state_of_words_take: "state_of_words (Hex_parse (Hex_stringify iv)) = state_of_words iv"
  by (simp add: Hex_parse_stringify)

lemma decryptData_blob:
  fixes bs :: "byte list" and key iv :: "word32 list"
  defines "ct \<equiv> CBC_encrypt key (state_of_words iv) (Pkcs7_pad bs)"
  assumes "Utf8_parse data = Inr bs" "data \<noteq> []" "iv \<noteq> []" "take 8 ct \<noteq> Salted"
  shows "decryptData (Hex_stringify iv @ js '':'' @ Base64_stringify ct) key = Inr (Some data)"
proof -
  have bs: "bs \<noteq> []" using assms(2,3) by (rule Utf8_parse_nonempty)
  note pad = Pkcs7_pad_props [of bs]
  have "length ct = length (Pkcs7_pad bs)"
    unfolding ct_def using pad(1) by (rule length_CBC_encrypt)
  with pad(2) have ct: "ct \<noteq> []" by auto
  have parts: "split 0x3A (Hex_stringify iv @ js '':'' @ Base64_stringify ct)
                 = [Hex_stringify iv, Base64_stringify ct]"
    by (simp add: js_colon split_blob Hex_stringify_no_colon Base64_stringify_no_colon)
  have dec: "AES_decrypt (Base64_stringify ct) key iv
               = \<lparr>wordBytes = Pkcs7_pad bs, sigBytes = int (length bs)\<rparr>"
    unfolding ct_def using assms(5) [unfolded ct_def] by (rule AES_decrypt_ciphertext)
  have pne: "Pkcs7_pad bs \<noteq> []" using pad(2) by auto
  have "decryptData_try (Hex_stringify iv @ js '':'' @ Base64_stringify ct) key = Inr (Some data)"
    using assms(2,3,4) bs ct pne
    by (simp add: decryptData_try_def parts Let_def Hex_stringify_nonempty Base64_stringify_nonempty
        Hex_parse_stringify dec pad(6) Utf8_stringify_parse)
  then show ?thesis by (simp add: decryptData_def)
qed

lemma has_salt_marker_blob:
  "has_salt_marker (Hex_stringify iv @ js '':'' @ Base64_stringify ct) = (take 8 ct = Salted)"
  by (simp add: has_salt_marker_def js_colon split_blob Hex_stringify_no_colon
      Base64_stringify_no_colon Base64_parse_stringify)

lemma encryptData_eq:
  assumes "Utf8_parse data = Inr bs" "data \<noteq> []"
  shows "encryptData data key ivUint8 =
           Inr (Hex_stringify (map ucast ivUint8) @ js '':''
                @ Base64_stringify (CBC_encrypt key (state_of_words (map ucast ivUint8)) (Pkcs7_pad bs)))"
  using assms by (simp add: encryptData_def AES_encrypt_def Let_def)

section \<open>Properties of key derivation and of the password protocol\<close>

lemma deriveKey_eq:
  "deriveKey prf password salt =
     (if well_formed password
      then (case Utf8_parse password of Inr bs \<Rightarrow> Inr (map (word_at (prf bs salt PBKDF2_ITERATIONS)) [0 ..< KEY_SIZE]) | Inl e \<Rightarrow> Inl e)
      else Inl URIError)"
  using Utf8_parse_well_formed [of password] Utf8_parse_ill_formed [of password]
  by (auto simp: deriveKey_def PBKDF2_def split: sum.splits)

text \<open>
  C6 (as amended): \<open>deriveKey\<close> checks neither the password nor the salt. For every
  password that is a well-formed string, the empty string included, and for a salt of any
  length it returns a key of \<open>KEY_SIZE\<close> words; it fails, with the \<open>URIError\<close> that
  \<open>CryptoJS.PBKDF2\<close> throws and \<open>deriveKey\<close> rethrows, exactly when the password has
  an unpaired surrogate. Equal inputs give equal results.
\<close>

theorem deriveKey_no_validation:
  "(well_formed password \<longrightarrow> (\<exists>key. deriveKey prf password salt = Inr key \<and> length key = KEY_SIZE))
   \<and> (\<not> well_formed password \<longrightarrow> deriveKey prf password salt = Inl URIError)
   \<and> (password' = password \<and> salt' = salt \<longrightarrow> deriveKey prf password' salt' = deriveKey prf password salt)"
  using Utf8_parse_well_formed [of password]
  by (auto simp: deriveKey_eq)

theorem deriveKey_no_validation_witness:
  "\<exists>key. deriveKey (\<lambda>passwordBytes salt iterations. []) [] [] = Inr key \<and> length key = KEY_SIZE"
  using deriveKey_no_validation [of "[]" "\<lambda>passwordBytes salt iterations. []" "[]"]
  by simp

text \<open>The claim C6 as stated fails: for the empty password and a salt of no bytes at all
  \<open>deriveKey\<close> returns a key instead of failing.\<close>

theorem deriveKey_empty_password_counterexample:
  "deriveKey (\<lambda>passwordBytes salt iterations. []) [] [] = Inr [0, 0, 0, 0, 0, 0, 0, 0]"
  by (simp add: deriveKey_def PBKDF2_def KEY_SIZE_def word_at_def upt_rec)


lemma items_frame:
  "setItemAsync k v s = (Inl e, s') \<Longrightarrow> items s' = items s \<and> rejected (ss_faults s)"
  "setItemAsync k v s = (Inr u, s') \<Longrightarrow> items s' = (items s)(k \<mapsto> v) \<and> \<not> rejected (ss_faults s)"
  by (auto simp: setItemAsync_def split: if_splits)

lemma storeSalt_cases:
  "storeSalt salt s = (Inl e, s') \<Longrightarrow>
     items s' = items s \<and> rejected (ss_faults s) \<and> e = Error ''Failed to store critical encryption data.''"
  "storeSalt salt s = (Inr u, s') \<Longrightarrow>
     items s' = (items s)(SECURE_STORE_SALT_KEY \<mapsto> Base64_stringify salt) \<and> \<not> rejected (ss_faults s)"
  by (auto simp: storeSalt_def setItemAsync_def split: if_splits)

lemma setMasterPassword_failure_items:
  assumes "setMasterPassword prf password salt ivUint8 s = (Inl e, s')"
  shows "items s' = items s \<or> items s' = (items s)(SECURE_STORE_SALT_KEY \<mapsto> Base64_stringify salt)"
proof (cases "password = []")
  case True
  with assms show ?thesis by (simp add: setMasterPassword_def)
next
  case False
  show ?thesis
  proof (cases "storeSalt salt s")
    case (Pair r s1)
    show ?thesis
    proof (cases r)
      case (Inl e1)
      with Pair assms False have "e = e1" "s' = s1"
        by (simp_all add: setMasterPassword_def)
      with storeSalt_cases(1) [of salt s e1 s1] Pair Inl False show ?thesis by simp
    next
      case (Inr u)
      from storeSalt_cases(2) [of salt s u s1] Pair Inr
      have s1: "items s1 = (items s)(SECURE_STORE_SALT_KEY \<mapsto> Base64_stringify salt)"
        by simp
      have "items s' = items s1"
        using assms False Pair Inr
        by (auto simp: setMasterPassword_def setItemAsync_def split: sum.splits if_splits prod.splits)
      with s1 show ?thesis by simp
    qed
  qed
qed

lemma setMasterPassword_salt_write_rejected:
  assumes "password \<noteq> []" "rejected (ss_faults s)"
  shows "setMasterPassword prf password salt ivUint8 s =
           (Inl (Error ''Failed to store critical encryption data.''), s\<lparr>ss_faults := tl (ss_faults s)\<rparr>)"
  using assms by (simp add: setMasterPassword_def storeSalt_def setItemAsync_def)

lemma setMasterPassword_probe_write_rejected:
  assumes "password \<noteq> []" "well_formed password" "\<not> rejected (ss_faults s)" "rejected (tl (ss_faults s))"
  shows "setMasterPassword prf password salt ivUint8 s =
           (Inl (Error ''Failed to secure internal test data for password verification.''),
            s\<lparr>items := (items s)(SECURE_STORE_SALT_KEY \<mapsto> Base64_stringify salt),
              ss_faults := tl (tl (ss_faults s))\<rparr>)"
proof -
  obtain key where k: "deriveKey prf password salt = Inr key" "length key = KEY_SIZE"
    using assms(2) Utf8_parse_well_formed [of password] by (auto simp: deriveKey_eq)
  obtain enc where e: "encryptData TEST_PLAIN_TEXT key ivUint8 = Inr enc"
    using encryptData_returns [OF TEST_PLAIN_TEXT_nonempty TEST_PLAIN_TEXT_well_formed] by blast
  show ?thesis
    using assms k e
    by (simp add: setMasterPassword_def storeSalt_def setItemAsync_def KEY_SIZE_def)
qed

lemma setMasterPassword_ill_formed:
  assumes "password \<noteq> []" "\<not> well_formed password" "\<not> rejected (ss_faults s)"
  shows "setMasterPassword prf password salt ivUint8 s =
           (Inl URIError,
            s\<lparr>items := (items s)(SECURE_STORE_SALT_KEY \<mapsto> Base64_stringify salt),
              ss_faults := tl (ss_faults s)\<rparr>)"
  using assms by (simp add: setMasterPassword_def storeSalt_def setItemAsync_def deriveKey_eq)

lemma setMasterPassword_returns:
  assumes "password \<noteq> []" "well_formed password" "\<not> rejected (ss_faults s)" "\<not> rejected (tl (ss_faults s))"
  shows "\<exists>key blob. deriveKey prf password salt = Inr key
           \<and> encryptData TEST_PLAIN_TEXT key ivUint8 = Inr blob
           \<and> setMasterPassword prf password salt ivUint8 s =
               (Inr key, s\<lparr>items := (items s)(SECURE_STORE_SALT_KEY \<mapsto> Base64_stringify salt,
                                               TEST_DATA_KEY \<mapsto> blob),
                            ss_faults := tl (tl (ss_faults s))\<rparr>)"
proof -
  obtain key where k: "deriveKey prf password salt = Inr key" "length key = KEY_SIZE"
    using assms(2) Utf8_parse_well_formed [of password] by (auto simp: deriveKey_eq)
  obtain enc where e: "encryptData TEST_PLAIN_TEXT key ivUint8 = Inr enc"
    using encryptData_returns [OF TEST_PLAIN_TEXT_nonempty TEST_PLAIN_TEXT_well_formed] by blast
  show ?thesis
    using assms k e
    by (simp add: setMasterPassword_def storeSalt_def setItemAsync_def KEY_SIZE_def)
qed

text \<open>
  C3 (as amended): \<open>setMasterPassword\<close> fails with \<open>Password cannot be empty.\<close> and
  leaves the store as it is when the password is empty. For a non-empty password it writes
  the salt first. When that write is rejected it fails with \<open>Failed to store critical
  encryption data.\<close> and nothing is written. When the salt is written and the write of the
  test data is rejected it fails with \<open>Failed to secure internal test data for password
  verification.\<close>, and when the password has an unpaired surrogate it fails with the
  \<open>URIError\<close> of the key derivation; in both cases the new salt stays in the store
  without test data written: the salt is not rolled back. In every failure the store holds
  what it held before, or that and the new salt. When the password is well formed and neither
  write is rejected the call returns the derived key, the salt and the encrypted test data
  written.
\<close>

theorem setMasterPassword_failure:
  "(password = [] \<longrightarrow>
      setMasterPassword prf password salt ivUint8 s = (Inl (Error ''Password cannot be empty.''), s))
   \<and> (password \<noteq> [] \<and> rejected (ss_faults s) \<longrightarrow>
        (\<exists>s'. setMasterPassword prf password salt ivUint8 s
                = (Inl (Error ''Failed to store critical encryption data.''), s')
             \<and> items s' = items s))
   \<and> (password \<noteq> [] \<and> well_formed password \<and> \<not> rejected (ss_faults s) \<and> rejected (tl (ss_faults s)) \<longrightarrow>
        (\<exists>s'. setMasterPassword prf password salt ivUint8 s
                = (Inl (Error ''Failed to secure internal test data for password verification.''), s')
             \<and> items s' = (items s)(SECURE_STORE_SALT_KEY \<mapsto> Base64_stringify salt)))
   \<and> (password \<noteq> [] \<and> \<not> well_formed password \<and> \<not> rejected (ss_faults s) \<longrightarrow>
        (\<exists>s'. setMasterPassword prf password salt ivUint8 s = (Inl URIError, s')
             \<and> items s' = (items s)(SECURE_STORE_SALT_KEY \<mapsto> Base64_stringify salt)))
   \<and> (password \<noteq> [] \<and> well_formed password \<and> \<not> rejected (ss_faults s) \<and> \<not> rejected (tl (ss_faults s)) \<longrightarrow>
        (\<exists>key blob s'. setMasterPassword prf password salt ivUint8 s = (Inr key, s')
             \<and> deriveKey prf password salt = Inr key
             \<and> encryptData TEST_PLAIN_TEXT key ivUint8 = Inr blob
             \<and> items s' = (items s)(SECURE_STORE_SALT_KEY \<mapsto> Base64_stringify salt,
                                      TEST_DATA_KEY \<mapsto> blob)))
   \<and> (\<forall>e s'. setMasterPassword prf password salt ivUint8 s = (Inl e, s') \<longrightarrow>
          items s' = items s
          \<or> items s' = (items s)(SECURE_STORE_SALT_KEY \<mapsto> Base64_stringify salt))"
proof (intro conjI allI impI)
  assume "password = []"
  then show "setMasterPassword prf password salt ivUint8 s = (Inl (Error ''Password cannot be empty.''), s)"
    by (simp add: setMasterPassword_def)
next
  assume "password \<noteq> [] \<and> rejected (ss_faults s)"
  then show "\<exists>s'. setMasterPassword prf password salt ivUint8 s
                = (Inl (Error ''Failed to store critical encryption data.''), s')
             \<and> items s' = items s"
    by (simp add: setMasterPassword_salt_write_rejected)
next
  assume "password \<noteq> [] \<and> well_formed password \<and> \<not> rejected (ss_faults s) \<and> rejected (tl (ss_faults s))"
  then show "\<exists>s'. setMasterPassword prf password salt ivUint8 s
                = (Inl (Error ''Failed to secure internal test data for password verification.''), s')
             \<and> items s' = (items s)(SECURE_STORE_SALT_KEY \<mapsto> Base64_stringify salt)"
    by (simp add: setMasterPassword_probe_write_rejected)
next
  assume "password \<noteq> [] \<and> \<not> well_formed password \<and> \<not> rejected (ss_faults s)"
  then show "\<exists>s'. setMasterPassword prf password salt ivUint8 s = (Inl URIError, s')
             \<and> items s' = (items s)(SECURE_STORE_SALT_KEY \<mapsto> Base64_stringify salt)"
    by (simp add: setMasterPassword_ill_formed)
next
  assume "password \<noteq> [] \<and> well_formed password \<and> \<not> rejected (ss_faults s) \<and> \<not> rejected (tl (ss_faults s))"
  then have a: "password \<noteq> []" "well_formed password" "\<not> rejected (ss_faults s)" "\<not> rejected (tl (ss_faults s))"
    by simp_all
  from setMasterPassword_returns [OF a, of "prf" salt ivUint8]
  obtain key blob where "deriveKey prf password salt = Inr key"
    "encryptData TEST_PLAIN_TEXT key ivUint8 = Inr blob"
    "setMasterPassword prf password salt ivUint8 s =
               (Inr key, s\<lparr>items := (items s)(SECURE_STORE_SALT_KEY \<mapsto> Base64_stringify salt,
                                               TEST_DATA_KEY \<mapsto> blob),
                            ss_faults := tl (tl (ss_faults s))\<rparr>)"
    by blast
  then show "\<exists>key blob s'. setMasterPassword prf password salt ivUint8 s = (Inr key, s')
             \<and> deriveKey prf password salt = Inr key
             \<and> encryptData TEST_PLAIN_TEXT key ivUint8 = Inr blob
             \<and> items s' = (items s)(SECURE_STORE_SALT_KEY \<mapsto> Base64_stringify salt,
                                      TEST_DATA_KEY \<mapsto> blob)"
    by simp
next
  fix e s' assume "setMasterPassword prf password salt ivUint8 s = (Inl e, s')"
  then show "items s' = items s
          \<or> items s' = (items s)(SECURE_STORE_SALT_KEY \<mapsto> Base64_stringify salt)"
    by (rule setMasterPassword_failure_items)
qed

text \<open>The claim C3 as stated fails: when the write of the salt goes through and the write
  of the test data is rejected, the call fails and the store holds a salt and no test
  data.\<close>

theorem setMasterPassword_partial_state_counterexample:
  "setMasterPassword (\<lambda>passwordBytes salt iterations. []) (js ''Secret1'') (replicate 16 0x5A) (replicate 16 0x01)
     \<lparr>items = (\<lambda>k. None), ss_faults = [False, True]\<rparr>
   = (Inl (Error ''Failed to secure internal test data for password verification.''),
      \<lparr>items = (\<lambda>k. None)(SECURE_STORE_SALT_KEY \<mapsto> Base64_stringify (replicate 16 0x5A)), ss_faults = []\<rparr>)"
proof -
  have "well_formed (js ''Secret1'')"
    by (rule ascii_well_formed, rule js_ascii) simp
  moreover have "js ''Secret1'' \<noteq> []" by (simp add: js_def)
  ultimately show ?thesis
    by (simp add: setMasterPassword_probe_write_rejected rejected_def)
qed

theorem setMasterPassword_failure_witness:
  "(\<exists>s'. setMasterPassword (\<lambda>passwordBytes salt iterations. []) (js ''Secret1'')
              (replicate 16 0x5A) (replicate 16 0x01) \<lparr>items = (\<lambda>k. None), ss_faults = [False, True]\<rparr>
            = (Inl (Error ''Failed to secure internal test data for password verification.''), s')
          \<and> items s' = (\<lambda>k. None)(SECURE_STORE_SALT_KEY \<mapsto> Base64_stringify (replicate 16 0x5A)))
   \<and> (\<exists>s'. setMasterPassword (\<lambda>passwordBytes salt iterations. []) (js ''Secret1'')
              (replicate 16 0x5A) (replicate 16 0x01) \<lparr>items = (\<lambda>k. None), ss_faults = [True]\<rparr>
            = (Inl (Error ''Failed to store critical encryption data.''), s')
          \<and> items s' = (\<lambda>k. None))"
proof -
  have wf: "well_formed (js ''Secret1'')"
    by (rule ascii_well_formed, rule js_ascii) simp
  have ne: "js ''Secret1'' \<noteq> []" by (simp add: js_def)
  from setMasterPassword_failure [of "js ''Secret1''" "\<lambda>passwordBytes salt iterations. []"
      "replicate 16 0x5A" "replicate 16 0x01" "\<lparr>items = (\<lambda>k. None), ss_faults = [False, True]\<rparr>"] wf ne
  have a: "\<exists>s'. setMasterPassword (\<lambda>passwordBytes salt iterations. []) (js ''Secret1'')
              (replicate 16 0x5A) (replicate 16 0x01) \<lparr>items = (\<lambda>k. None), ss_faults = [False, True]\<rparr>
            = (Inl (Error ''Failed to secure internal test data for password verification.''), s')
          \<and> items s' = (\<lambda>k. None)(SECURE_STORE_SALT_KEY \<mapsto> Base64_stringify (replicate 16 0x5A))"
    by (simp add: rejected_def)
  from setMasterPassword_failure [of "js ''Secret1''" "\<lambda>passwordBytes salt iterations. []"
      "replicate 16 0x5A" "replicate 16 0x01" "\<lparr>items = (\<lambda>k. None), ss_faults = [True]\<rparr>"] ne
  have b: "\<exists>s'. setMasterPassword (\<lambda>passwordBytes salt iterations. []) (js ''Secret1'')
              (replicate 16 0x5A) (replicate 16 0x01) \<lparr>items = (\<lambda>k. None), ss_faults = [True]\<rparr>
            = (Inl (Error ''Failed to store critical encryption data.''), s')
          \<and> items s' = (\<lambda>k. None)"
    by (simp add: rejected_def)
  from a b show ?thesis by simp
qed

section \<open>Properties of the cipher\<close>

text \<open>
  C9: \<open>encryptData\<close> on the empty string throws \<open>Error('Encrypt data received invalid
  input.')\<close> for every key and every draw of random bytes; no blob is returned.
\<close>

theorem encryptData_empty:
  "encryptData [] key ivUint8 = Inl (Error ''Encrypt data received invalid input.'')"
  by (simp add: encryptData_def)

section \<open>Properties of the note repository\<close>

lemma rejected_Nil [simp]: "rejected [] = False"
  by (simp add: rejected_def)

lemma fs_ops_no_fault:
  assumes "fs_faults fs = []"
  shows "getInfoAsync_isDirectory fs = (Inr (isDirectory fs), fs)"
    and "getInfoAsync_exists path fs = (Inr (files fs path \<noteq> None), fs)"
    and "makeDirectoryAsync fs = (Inr (), fs\<lparr>isDirectory := True\<rparr>)"
    and "writeMetadata ms fs = (Inr (), fs\<lparr>metadata := Parsed (JArray ms)\<rparr>)"
    and "files fs path \<noteq> None \<Longrightarrow> deleteAsync path fs = (Inr (), fs\<lparr>files := (files fs)(path := None)\<rparr>)"
    and "readMetadata fs = (case metadata fs of Parsed v \<Rightarrow> Inr v | Missing \<Rightarrow> Inl NativeError
                             | Unparseable \<Rightarrow> Inl SyntaxError, fs)"
  using assms
  by (simp_all add: getInfoAsync_isDirectory_def getInfoAsync_exists_def makeDirectoryAsync_def
      writeMetadata_def deleteAsync_def readMetadata_def step_def split: metadata_file.splits)

lemma ensureDirExists_no_fault:
  assumes "fs_faults fs = []"
  shows "ensureDirExists fs = (Inr (), fs\<lparr>isDirectory := True\<rparr>)"
  using assms by (cases "isDirectory fs") (simp_all add: ensureDirExists_def fs_ops_no_fault)

lemma filePath_upd [simp]: "filePath (fs\<lparr>isDirectory := b\<rparr>) ident = filePath fs ident"
  by (simp add: filePath_def NOTES_DIR_def)









lemma id_is_not_has_id: "m \<noteq> JNull \<Longrightarrow> id_is_not ident m = Inr (\<not> has_id ident m)"
  by (cases m) (simp_all add: id_is_not_def has_id_def)

lemma id_is_not_null: "id_is_not ident JNull = Inl TypeError"
  by (simp add: id_is_not_def)

lemma filter_array_no_null:
  "JNull \<notin> set ms \<Longrightarrow> filter_array (id_is_not ident) ms = Inr (filter (\<lambda>m. \<not> has_id ident m) ms)"
  by (induction ms) (auto simp: id_is_not_has_id)

lemma filter_array_null:
  "JNull \<in> set ms \<Longrightarrow> filter_array (id_is_not ident) ms = Inl TypeError"
proof (induction ms)
  case Nil
  then show ?case by simp
next
  case (Cons m ms)
  show ?case
  proof (cases "m = JNull")
    case True
    then show ?thesis by (simp add: id_is_not_null)
  next
    case False
    with Cons show ?thesis by (simp add: id_is_not_has_id)
  qed
qed

lemma filter_array_result:
  assumes "filter_array (id_is_not ident) ms = Inr r"
  shows "r = filter (\<lambda>m. \<not> has_id ident m) ms" and "JNull \<notin> set ms"
proof -
  show n: "JNull \<notin> set ms"
    using assms filter_array_null [of ms ident] by auto
  with assms show "r = filter (\<lambda>m. \<not> has_id ident m) ms"
    by (simp add: filter_array_no_null)
qed

lemma filter_array_error: "filter_array (id_is_not ident) ms = Inl e \<Longrightarrow> e = TypeError"
  using filter_array_no_null [of ms ident] filter_array_null [of ms ident] by (cases "JNull \<in> set ms") auto


lemma fs_ops_frame:
  "getInfoAsync_isDirectory fs = (r1, fs1) \<Longrightarrow> files fs1 = files fs \<and> metadata fs1 = metadata fs \<and> documentDirectory fs1 = documentDirectory fs"
  "getInfoAsync_exists path fs = (r2, fs2) \<Longrightarrow> files fs2 = files fs \<and> metadata fs2 = metadata fs \<and> documentDirectory fs2 = documentDirectory fs"
  "makeDirectoryAsync fs = (r3, fs3) \<Longrightarrow> files fs3 = files fs \<and> metadata fs3 = metadata fs \<and> documentDirectory fs3 = documentDirectory fs"
  "readMetadata fs = (r4, fs4) \<Longrightarrow> files fs4 = files fs \<and> metadata fs4 = metadata fs \<and> documentDirectory fs4 = documentDirectory fs"
  by (auto simp: getInfoAsync_isDirectory_def getInfoAsync_exists_def makeDirectoryAsync_def readMetadata_def step_def
      split: if_splits metadata_file.splits)

lemma ensureDirExists_frame:
  assumes "ensureDirExists fs = (r, fs1)"
  shows "files fs1 = files fs \<and> metadata fs1 = metadata fs \<and> documentDirectory fs1 = documentDirectory fs"
  using assms
  by (auto simp: ensureDirExists_def getInfoAsync_isDirectory_def makeDirectoryAsync_def step_def
      split: if_splits prod.splits sum.splits)

lemma filePath_cong: "documentDirectory fs1 = documentDirectory fs \<Longrightarrow> filePath fs1 ident = filePath fs ident"
  by (simp add: filePath_def NOTES_DIR_def)

lemma readMetadata_or_empty_frame:
  assumes "readMetadata_or_empty fs = (v, fs1)"
  shows "files fs1 = files fs" "metadata fs1 = metadata fs" "documentDirectory fs1 = documentDirectory fs"
    and "v = JArray [] \<or> metadata fs = Parsed v"
  using assms
  by (auto simp: readMetadata_or_empty_def readMetadata_def step_def
      split: if_splits metadata_file.splits)

lemma delete_file_post:
  assumes "(if ex then deleteAsync path fs else (Inr (), fs)) = (Inr u, fs1)" "ex = (files fs path \<noteq> None)"
  shows "files fs1 path = None" "metadata fs1 = metadata fs" "documentDirectory fs1 = documentDirectory fs"
  using assms by (auto simp: deleteAsync_def step_def split: if_splits)

lemma delete_file_frame:
  assumes "(if ex then deleteAsync path fs else (Inr (), fs)) = (r, fs1)"
  shows "metadata fs1 = metadata fs"
  using assms by (auto simp: deleteAsync_def step_def split: if_splits)

lemma writeMetadata_cases:
  "(writeMetadata ms fs = (Inr (), fs\<lparr>metadata := Parsed (JArray ms), fs_faults := tl (fs_faults fs)\<rparr>))
   \<or> (writeMetadata ms fs = (Inl NativeError, step fs))"
  by (simp add: writeMetadata_def step_def)

lemma deleteNote_try_cases:
  assumes "deleteNote_try ident fs = (r, fs')"
  shows "(\<exists>e. r = Inl e \<and> metadata fs' = metadata fs)
         \<or> (r = Inr () \<and> files fs' (filePath fs ident) = None
              \<and> documentDirectory fs' = documentDirectory fs
              \<and> (\<exists>ms. metadata fs' = Parsed (JArray ms)
                    \<and> (ms = [] \<or> (\<exists>es. metadata fs = Parsed (JArray es) \<and> JNull \<notin> set es
                                     \<and> ms = filter (\<lambda>m. \<not> has_id ident m) es))))"
proof -
  define update where "update = (\<lambda>fs2.
      case readMetadata_or_empty fs2 of
        (metadata0, fs3) \<Rightarrow>
          (case as_array metadata0 of
             Inl e \<Rightarrow> (Inl e, fs3)
           | Inr ms \<Rightarrow>
               (case filter_array (id_is_not ident) ms of
                  Inl e \<Rightarrow> (Inl e, fs3)
                | Inr updatedMetadata \<Rightarrow> writeMetadata updatedMetadata fs3)))"
  have unf: "deleteNote_try ident fs =
     (case getInfoAsync_exists (filePath fs ident) fs of
        (Inl e, fs1) \<Rightarrow> (Inl e, fs1)
      | (Inr ex, fs1) \<Rightarrow>
          (case (if ex then deleteAsync (filePath fs1 ident) fs1 else (Inr (), fs1)) of
             (Inl e, fs2) \<Rightarrow> (Inl e, fs2)
           | (Inr u, fs2) \<Rightarrow> update fs2))"
    unfolding deleteNote_try_def update_def ..
  obtain r1 fs1 where g: "getInfoAsync_exists (filePath fs ident) fs = (r1, fs1)"
    by (cases "getInfoAsync_exists (filePath fs ident) fs")
  note f1 = fs_ops_frame(2) [OF g]
  show ?thesis
  proof (cases r1)
    case (Inl e)
    have "deleteNote_try ident fs = (Inl e, fs1)" by (simp add: unf g Inl)
    with assms have "r = Inl e" "fs' = fs1" by simp_all
    with f1 show ?thesis by simp
  next
    case (Inr ex)
    with g have ex: "ex = (files fs (filePath fs ident) \<noteq> None)"
      by (auto simp: getInfoAsync_exists_def split: if_splits)
    have p1: "filePath fs1 ident = filePath fs ident" by (rule filePath_cong) (simp add: f1)
    obtain r2 fs2 where d: "(if ex then deleteAsync (filePath fs ident) fs1 else (Inr (), fs1)) = (r2, fs2)"
      by (cases "if ex then deleteAsync (filePath fs ident) fs1 else (Inr (), fs1)")
    note f2 = delete_file_frame [OF d]
    have unf2: "deleteNote_try ident fs = (case r2 of Inl e \<Rightarrow> (Inl e, fs2) | Inr u \<Rightarrow> update fs2)"
      by (simp only: unf g Inr prod.case sum.case p1 d)
    show ?thesis
    proof (cases r2)
      case (Inl e)
      have "deleteNote_try ident fs = (Inl e, fs2)" by (simp add: unf2 Inl)
      with assms have "r = Inl e" "fs' = fs2" by simp_all
      with f1 f2 show ?thesis by simp
    next
      case u: (Inr u)
      from ex f1 have ex1: "ex = (files fs1 (filePath fs ident) \<noteq> None)" by simp
      from d u have d': "(if ex then deleteAsync (filePath fs ident) fs1 else (Inr (), fs1)) = (Inr u, fs2)"
        by simp
      note p2 = delete_file_post [OF d' ex1]
      obtain v fs3 where m: "readMetadata_or_empty fs2 = (v, fs3)"
        by (cases "readMetadata_or_empty fs2")
      note f3 = readMetadata_or_empty_frame [OF m]
      have "deleteNote_try ident fs = update fs2" by (simp add: unf2 u)
      with assms have rest: "update fs2 = (r, fs')" by simp
      have m3: "metadata fs3 = metadata fs" using f1 f2 f3(2) by simp
      show ?thesis
      proof (cases "as_array v")
        case (Inl e)
        have "update fs2 = (Inl e, fs3)" by (simp add: update_def m Inl)
        with rest have "r = Inl e" "fs' = fs3" by simp_all
        with m3 show ?thesis by simp
      next
        case ms: (Inr ms)
        then have v: "v = JArray ms" by (simp add: as_array_def split: json.splits)
        show ?thesis
        proof (cases "filter_array (id_is_not ident) ms")
          case (Inl e)
          have "update fs2 = (Inl e, fs3)" by (simp add: update_def m ms Inl)
          with rest have "r = Inl e" "fs' = fs3" by simp_all
          with m3 show ?thesis by simp
        next
          case up: (Inr updatedMetadata)
          note fr = filter_array_result [OF up]
          have "update fs2 = writeMetadata updatedMetadata fs3" by (simp add: update_def m ms up)
          with rest have w: "writeMetadata updatedMetadata fs3 = (r, fs')" by simp
          from writeMetadata_cases [of updatedMetadata fs3] show ?thesis
          proof
            assume ok: "writeMetadata updatedMetadata fs3 =
                (Inr (), fs3\<lparr>metadata := Parsed (JArray updatedMetadata), fs_faults := tl (fs_faults fs3)\<rparr>)"
            with w have r: "r = Inr ()"
              and fs': "fs' = fs3\<lparr>metadata := Parsed (JArray updatedMetadata), fs_faults := tl (fs_faults fs3)\<rparr>"
              by simp_all
            have a: "files fs' (filePath fs ident) = None" using fs' f3(1) p2(1) by simp
            have b: "documentDirectory fs' = documentDirectory fs" using fs' f3(3) p2(3) f1 by simp
            have c: "metadata fs' = Parsed (JArray updatedMetadata)" using fs' by simp
            from f3(4) have "updatedMetadata = [] \<or> (\<exists>es. metadata fs = Parsed (JArray es) \<and> JNull \<notin> set es
                                     \<and> updatedMetadata = filter (\<lambda>m. \<not> has_id ident m) es)"
            proof
              assume "v = JArray []"
              with v fr(1) show ?thesis by simp
            next
              assume "metadata fs2 = Parsed v"
              with v f1 f2 have "metadata fs = Parsed (JArray ms)" by simp
              with fr show ?thesis by blast
            qed
            with r a b c show ?thesis by blast
          next
            assume "writeMetadata updatedMetadata fs3 = (Inl NativeError, step fs3)"
            with w have "r = Inl NativeError" "fs' = step fs3" by simp_all
            with m3 show ?thesis by (simp add: step_def)
          qed
        qed
      qed
    qed
  qed
qed

lemma deleteNote_cases:
  assumes "deleteNote ident fs = (r, fs')"
  shows "(\<exists>e. r = Inl e \<and> metadata fs' = metadata fs)
         \<or> (r = Inr () \<and> files fs' (filePath fs' ident) = None
              \<and> (\<exists>ms. metadata fs' = Parsed (JArray ms)
                    \<and> (ms = [] \<or> (\<exists>es. metadata fs = Parsed (JArray es) \<and> JNull \<notin> set es
                                     \<and> ms = filter (\<lambda>m. \<not> has_id ident m) es))))"
proof -
  obtain r1 fs1 where e: "ensureDirExists fs = (r1, fs1)"
    by (cases "ensureDirExists fs")
  note f1 = ensureDirExists_frame [OF e]
  obtain r2 fs2 where d: "deleteNote_try ident fs1 = (r2, fs2)"
    by (cases "deleteNote_try ident fs1")
  have unf: "deleteNote ident fs =
     (case r1 of
        Inl e \<Rightarrow> (Inl e, fs1)
      | Inr u \<Rightarrow>
          (case r2 of
             Inl e \<Rightarrow> (Inl (Error ''Failed to delete note.''), fs2)
           | Inr u' \<Rightarrow> (Inr (), fs2)))"
    by (simp add: deleteNote_def e d split: sum.splits)
  show ?thesis
  proof (cases r1)
    case (Inl e1)
    have "deleteNote ident fs = (Inl e1, fs1)" by (simp add: unf Inl)
    with assms have "r = Inl e1" "fs' = fs1" by simp_all
    with f1 show ?thesis by simp
  next
    case (Inr u)
    note t = deleteNote_try_cases [OF d]
    show ?thesis
    proof (cases r2)
      case (Inl e2)
      with t have m: "metadata fs2 = metadata fs1" by auto
      have "deleteNote ident fs = (Inl (Error ''Failed to delete note.''), fs2)"
        by (simp add: unf Inr Inl)
      with assms have "r = Inl (Error ''Failed to delete note.'')" "fs' = fs2" by simp_all
      with m f1 show ?thesis by simp
    next
      case u': (Inr u')
      have "deleteNote ident fs = (Inr (), fs2)" by (simp add: unf Inr u')
      with assms have r: "r = Inr ()" and fs': "fs' = fs2" by simp_all
      from t u'
      have a: "files fs2 (filePath fs1 ident) = None" and b: "documentDirectory fs2 = documentDirectory fs1"
        and c: "\<exists>ms. metadata fs2 = Parsed (JArray ms)
                    \<and> (ms = [] \<or> (\<exists>es. metadata fs1 = Parsed (JArray es) \<and> JNull \<notin> set es
                                     \<and> ms = filter (\<lambda>m. \<not> has_id ident m) es))"
        by auto
      from b have p: "filePath fs2 ident = filePath fs1 ident" by (rule filePath_cong)
      from f1 have m1: "metadata fs1 = metadata fs" by simp
      from a p fs' have a': "files fs' (filePath fs' ident) = None" by simp
      from c m1 fs' have c': "\<exists>ms. metadata fs' = Parsed (JArray ms)
                    \<and> (ms = [] \<or> (\<exists>es. metadata fs = Parsed (JArray es) \<and> JNull \<notin> set es
                                     \<and> ms = filter (\<lambda>m. \<not> has_id ident m) es))"
        by simp
      from r a' c' show ?thesis by blast
    qed
  qed
qed

lemma deleteNote_error:
  assumes "deleteNote ident fs = (Inl e, fs')"
  shows "fst (ensureDirExists fs) = Inl e \<or> e = Error ''Failed to delete note.''"
  using assms by (auto simp: deleteNote_def split: prod.splits sum.splits)

lemma deleteNote_no_fault:
  assumes "fs_faults fs = []"
  shows "deleteNote ident fs =
           (case as_array (case metadata fs of Parsed v \<Rightarrow> v | _ \<Rightarrow> JArray []) of
              Inl e \<Rightarrow> (Inl (Error ''Failed to delete note.''),
                         fs\<lparr>isDirectory := True, files := (files fs)(filePath fs ident := None)\<rparr>)
            | Inr ms \<Rightarrow>
                (case filter_array (id_is_not ident) ms of
                   Inl e \<Rightarrow> (Inl (Error ''Failed to delete note.''),
                              fs\<lparr>isDirectory := True, files := (files fs)(filePath fs ident := None)\<rparr>)
                 | Inr r \<Rightarrow> (Inr (), fs\<lparr>isDirectory := True, files := (files fs)(filePath fs ident := None),
                                        metadata := Parsed (JArray r)\<rparr>)))"
proof -
  let ?fs1 = "fs\<lparr>isDirectory := True\<rparr>"
  let ?fs2 = "fs\<lparr>isDirectory := True, files := (files fs)(filePath fs ident := None)\<rparr>"
  have f1: "fs_faults ?fs1 = []" and f2: "fs_faults ?fs2 = []" using assms by simp_all
  have del: "(case getInfoAsync_exists (filePath ?fs1 ident) ?fs1 of
        (Inl e, fs1) \<Rightarrow> (Inl e, fs1)
      | (Inr ex, fs1) \<Rightarrow> (if ex then deleteAsync (filePath fs1 ident) fs1 else (Inr (), fs1)))
      = (Inr (), ?fs2)"
  proof (cases "files fs (filePath fs ident) = None")
    case True
    then have "(files fs)(filePath fs ident := None) = files fs"
      by (simp add: fun_upd_idem)
    with True f1 show ?thesis by (simp add: fs_ops_no_fault)
  next
    case False
    then have "files ?fs1 (filePath ?fs1 ident) \<noteq> None" by simp
    with f1 False show ?thesis by (simp add: fs_ops_no_fault)
  qed
  have rd: "readMetadata_or_empty ?fs2 = (case metadata fs of Parsed v \<Rightarrow> v | _ \<Rightarrow> JArray [], ?fs2)"
    using f2 by (simp add: readMetadata_or_empty_def fs_ops_no_fault split: metadata_file.splits)
  have tr: "deleteNote_try ident ?fs1 =
     (case as_array (case metadata fs of Parsed v \<Rightarrow> v | _ \<Rightarrow> JArray []) of
        Inl e \<Rightarrow> (Inl e, ?fs2)
      | Inr ms \<Rightarrow>
          (case filter_array (id_is_not ident) ms of
             Inl e \<Rightarrow> (Inl e, ?fs2)
           | Inr r \<Rightarrow> (Inr (), ?fs2\<lparr>metadata := Parsed (JArray r)\<rparr>)))"
  proof (cases "files fs (filePath fs ident) = None")
    case True
    then have e: "(files fs)(filePath fs ident := None) = files fs"
      by (simp add: fun_upd_idem)
    from True f1 rd e f2 show ?thesis
      by (simp add: deleteNote_try_def fs_ops_no_fault split: sum.splits)
  next
    case False
    then have "files ?fs1 (filePath ?fs1 ident) \<noteq> None" by simp
    with f1 False rd f2 show ?thesis
      by (simp add: deleteNote_try_def fs_ops_no_fault split: sum.splits)
  qed
  show ?thesis
    using assms tr by (simp add: deleteNote_def ensureDirExists_no_fault split: sum.splits)
qed





lemma entry_timestamp_StoredNoteMetadata [simp]: "entry_timestamp (StoredNoteMetadata ident t) = t"
  by (simp add: entry_timestamp_def StoredNoteMetadata_def js_def)

lemma has_id_StoredNoteMetadata [simp]: "has_id ident (StoredNoteMetadata ident' t) = (ident' = ident)"
  by (simp add: has_id_def StoredNoteMetadata_def js_def)

lemma StoredNoteMetadata_not_null [simp]: "StoredNoteMetadata ident t \<noteq> JNull" "JNull \<noteq> StoredNoteMetadata ident t"
  by (simp_all add: StoredNoteMetadata_def)

lemma id_is_not_StoredNoteMetadata [simp]:
  "id_is_not ident (StoredNoteMetadata ident' t) = Inr (ident' \<noteq> ident)"
  by (simp add: id_is_not_has_id)








text \<open>
  C10: when no call into the file system is rejected, \<open>deleteNote\<close> writes the whole metadata
  file anew if the file holds an array without \<open>null\<close>, the array without the entries of
  the given id and every other element kept in place; if the file is absent or does not
  parse, the empty array. If the file holds a value that is no array, or an array with
  \<open>null\<close> in it, \<open>deleteNote\<close> throws. Whenever \<open>deleteNote\<close> throws, the metadata file
  is as before; whenever it returns, the file holds the array as above or, the read having
  been rejected, the empty array.
\<close>

theorem deleteNote_rewrites_index:
  "(fs_faults fs = [] \<and> metadata fs = Parsed (JArray ms) \<and> JNull \<notin> set ms \<longrightarrow>
      (\<exists>fs'. deleteNote ident fs = (Inr (), fs')
         \<and> metadata fs' = Parsed (JArray (filter (\<lambda>m. \<not> has_id ident m) ms))))
   \<and> (fs_faults fs = [] \<and> (metadata fs = Missing \<or> metadata fs = Unparseable) \<longrightarrow>
      (\<exists>fs'. deleteNote ident fs = (Inr (), fs') \<and> metadata fs' = Parsed (JArray [])))
   \<and> (fs_faults fs = []
        \<and> (\<exists>v. metadata fs = Parsed v
              \<and> (as_array v = Inl TypeError \<or> (\<exists>es. v = JArray es \<and> JNull \<in> set es))) \<longrightarrow>
      (\<exists>fs'. deleteNote ident fs = (Inl (Error ''Failed to delete note.''), fs')))
   \<and> (\<forall>e fs'. deleteNote ident fs = (Inl e, fs') \<longrightarrow> metadata fs' = metadata fs)
   \<and> (\<forall>fs'. deleteNote ident fs = (Inr (), fs') \<longrightarrow>
          metadata fs' = Parsed (JArray [])
          \<or> (\<exists>es. metadata fs = Parsed (JArray es)
                \<and> metadata fs' = Parsed (JArray (filter (\<lambda>m. \<not> has_id ident m) es))))"
proof (intro conjI allI impI)
  assume "fs_faults fs = [] \<and> metadata fs = Parsed (JArray ms) \<and> JNull \<notin> set ms"
  then show "\<exists>fs'. deleteNote ident fs = (Inr (), fs')
         \<and> metadata fs' = Parsed (JArray (filter (\<lambda>m. \<not> has_id ident m) ms))"
    by (simp add: deleteNote_no_fault as_array_def filter_array_no_null)
next
  assume "fs_faults fs = [] \<and> (metadata fs = Missing \<or> metadata fs = Unparseable)"
  then show "\<exists>fs'. deleteNote ident fs = (Inr (), fs') \<and> metadata fs' = Parsed (JArray [])"
    by (auto simp: deleteNote_no_fault as_array_def)
next
  assume "fs_faults fs = []
        \<and> (\<exists>v. metadata fs = Parsed v
              \<and> (as_array v = Inl TypeError \<or> (\<exists>es. v = JArray es \<and> JNull \<in> set es)))"
  then show "\<exists>fs'. deleteNote ident fs = (Inl (Error ''Failed to delete note.''), fs')"
    by (auto simp: deleteNote_no_fault as_array_def filter_array_null)
next
  fix e fs' assume "deleteNote ident fs = (Inl e, fs')"
  from deleteNote_cases [OF this] show "metadata fs' = metadata fs" by simp
next
  fix fs' assume "deleteNote ident fs = (Inr (), fs')"
  from deleteNote_cases [OF this]
  show "metadata fs' = Parsed (JArray [])
          \<or> (\<exists>es. metadata fs = Parsed (JArray es)
                \<and> metadata fs' = Parsed (JArray (filter (\<lambda>m. \<not> has_id ident m) es)))"
    by auto
qed

theorem deleteNote_rewrites_index_witness:
  "\<exists>fs'. deleteNote (js ''n1'')
            \<lparr>documentDirectory = js ''file:///'', isDirectory = True, files = (\<lambda>p. None),
             metadata = Parsed (JArray [StoredNoteMetadata (js ''n2'') 2, StoredNoteMetadata (js ''n1'') 1,
                                        StoredNoteMetadata (js ''n3'') 3]),
             fs_faults = []\<rparr>
          = (Inr (), fs')
        \<and> metadata fs' = Parsed (JArray [StoredNoteMetadata (js ''n2'') 2, StoredNoteMetadata (js ''n3'') 3])"
  using deleteNote_rewrites_index
    [of "\<lparr>documentDirectory = js ''file:///'', isDirectory = True, files = (\<lambda>p. None),
          metadata = Parsed (JArray [StoredNoteMetadata (js ''n2'') 2, StoredNoteMetadata (js ''n1'') 1,
                                     StoredNoteMetadata (js ''n3'') 3]),
          fs_faults = []\<rparr>"
        "[StoredNoteMetadata (js ''n2'') 2, StoredNoteMetadata (js ''n1'') 1,
          StoredNoteMetadata (js ''n3'') 3]" "js ''n1''"]
  by (simp add: js_def)

theorem deleteNote_read_rejected_counterexample:
  "deleteNote (js ''n1'')
     \<lparr>documentDirectory = js ''file:///'', isDirectory = True, files = (\<lambda>p. None),
      metadata = Parsed (JArray [StoredNoteMetadata (js ''n2'') 2, StoredNoteMetadata (js ''n3'') 3]),
      fs_faults = [False, False, True]\<rparr>
   = (Inr (),
      \<lparr>documentDirectory = js ''file:///'', isDirectory = True, files = (\<lambda>p. None),
       metadata = Parsed (JArray []), fs_faults = []\<rparr>)"
  by (simp add: deleteNote_def deleteNote_try_def ensureDirExists_def getInfoAsync_isDirectory_def
      getInfoAsync_exists_def readMetadata_or_empty_def readMetadata_def writeMetadata_def
      as_array_def rejected_def step_def)

end
